theory Spec2Isabelle
  imports Complex_Main
begin

section \<open>The ranking trainer script \<^verbatim>\<open>train-ranker.py\<close>\<close>

text \<open>
  The script reads a CSV file of relevance feedback, groups its rows by query, drops the
  queries whose candidates all carry one label, and hands the remaining rows to LightGBM.
  The development embeds \<^verbatim>\<open>load_csv\<close>, \<^verbatim>\<open>train\<close> and the part of
  \<^verbatim>\<open>main\<close> that connects them.

  What is not code of the script is a parameter or a small library model:
  \<^item> the built-ins \<^verbatim>\<open>int\<close> and \<^verbatim>\<open>float\<close> on text and the rounding of a
    float to \<^verbatim>\<open>float32\<close> are parameters (the record \<open>builtins\<close>), so every theorem
    holds for whatever these do; the type of float values is a type variable;
  \<^item> \<^verbatim>\<open>csv.DictReader\<close> and the conversion \<^verbatim>\<open>np.array(..., dtype=np.int32)\<close> are
    modelled below, each with a note on what the model takes from the library;
  \<^item> text written to standard error is returned as a list of messages.
\<close>

subsection \<open>Exceptions and messages\<close>

text \<open>
  The exceptions that can leave the modelled code. \<open>ValueError\<close> carries the message
  with which \<^verbatim>\<open>int\<close> or \<^verbatim>\<open>float\<close> raised it, \<open>KeyError\<close> the key that was looked
  up, and \<open>SystemExit\<close> the exit status. \<open>TypeError\<close> is a conversion applied to
  \<^verbatim>\<open>None\<close>.
\<close>

datatype target = To_int | To_float

datatype exn =
    KeyError string
  | TypeError target
  | ValueError string
  | OverflowError
  | IndexError
  | SystemExit int

text \<open>The lines the script prints to standard error, with the numbers they show.\<close>

datatype msg =
    Loading string
  | Skipped_queries nat
  | No_usable_data
  | Loaded nat nat nat
  | Training nat nat nat nat

subsection \<open>Constants\<close>

definition FEATURE_COLS :: "string list" where
  "FEATURE_COLS =
     [''f0_similarity'', ''f1_rank_score'', ''f2_authority'', ''f3_source_boost'',
      ''f4_crop_match'', ''f5_term_density'', ''f6_chunk_pos'']"

definition LABEL_GAIN :: "int list" where
  "LABEL_GAIN = [0, 1, 3]"

subsection \<open>Rows of the CSV reader\<close>

text \<open>
  A row of \<^verbatim>\<open>csv.DictReader\<close> is a dictionary from field names to cell texts. A field
  of the header for which a short line has no cell is bound to \<^verbatim>\<open>None\<close> (the reader's
  \<^verbatim>\<open>restval\<close>): the inner \<open>option\<close>. The entry the reader adds under the key
  \<^verbatim>\<open>None\<close> for the surplus cells of a long line is left out: the script reads string
  keys only.
\<close>

type_synonym row = "string \<rightharpoonup> string option"

text \<open>
  \<^verbatim>\<open>
  d = dict(zip(self.fieldnames, row))
  lf = len(self.fieldnames); lr = len(row)
  if lf < lr: d[self.restkey] = row[lf:]
  elif lf > lr:
      for key in self.fieldnames[lr:]: d[key] = self.restval
  \<close>
\<close>

definition make_row :: "string list \<Rightarrow> string list \<Rightarrow> row" where
  "make_row fieldnames cells =
     fold (\<lambda>key d. d(key \<mapsto> None)) (drop (length cells) fieldnames)
       (fold (\<lambda>(key, cell) d. d(key \<mapsto> Some cell)) (zip fieldnames cells) Map.empty)"

text \<open>
  The argument is what \<^verbatim>\<open>csv.reader\<close> yields for the file: one list of cells per
  line, the empty list for a blank line. The first line gives the field names; blank lines
  after it are skipped; a file with no line at all has no rows. Opening the file and
  splitting its lines into cells are outside the model.
\<close>

definition DictReader :: "string list list \<Rightarrow> row list" where
  "DictReader table =
     (case table of
        [] \<Rightarrow> []
      | fieldnames # lines \<Rightarrow> map (make_row fieldnames) (filter (\<lambda>cells. cells \<noteq> []) lines))"

subsection \<open>Built-ins taken as parameters\<close>

text \<open>
  \<open>py_int s\<close> is \<^verbatim>\<open>int(s)\<close> and \<open>py_float s\<close> is \<^verbatim>\<open>float(s)\<close> for a string \<open>s\<close>:
  \<open>Inr\<close> the number, or \<open>Inl\<close> the message of the \<^verbatim>\<open>ValueError\<close> that Python raises,
  whatever that message says; \<open>np_float32\<close> rounds a float to the element type of the
  feature array.
\<close>

record ('f, 'g) builtins =
  py_int :: "string \<Rightarrow> string + int"
  py_float :: "string \<Rightarrow> string + 'f"
  np_float32 :: "'f \<Rightarrow> 'g"

text \<open>
  \<^verbatim>\<open>np.array(y_rows, dtype=np.int32)\<close>: NumPy (from 2.0) raises \<^verbatim>\<open>OverflowError\<close> for a
  Python integer outside the range of the element type; the values that pass are kept as
  integers.
\<close>

definition np_array_int32 :: "int list \<Rightarrow> exn + int list" where
  "np_array_int32 ys =
     (if list_all (\<lambda>v. - (2 ^ 31) \<le> v \<and> v < 2 ^ 31) ys then Inr ys else Inl OverflowError)"

subsection \<open>\<^verbatim>\<open>load_csv\<close>: reading and grouping\<close>

text \<open>An item of a query is a pair of a feature list and a label; the key of a query is
  \<^verbatim>\<open>row["qid"]\<close>, a string or \<^verbatim>\<open>None\<close>.\<close>

type_synonym 'f item = "'f list \<times> int"
type_synonym 'f by_query = "(string option \<times> 'f item list) list"

text \<open>\<^verbatim>\<open>[float(row[col]) for col in FEATURE_COLS]\<close>, left to right, stopping at the first
  exception.\<close>

fun features_of :: "('f, 'g) builtins \<Rightarrow> row \<Rightarrow> string list \<Rightarrow> exn + 'f list" where
  "features_of lib row [] = Inr []"
| "features_of lib row (col # cols) =
     (case row col of
        None \<Rightarrow> Inl (KeyError col)
      | Some None \<Rightarrow> Inl (TypeError To_float)
      | Some (Some text) \<Rightarrow>
          (case py_float lib text of
             Inl message \<Rightarrow> Inl (ValueError message)
           | Inr x \<Rightarrow>
               (case features_of lib row cols of
                  Inl e \<Rightarrow> Inl e
                | Inr xs \<Rightarrow> Inr (x # xs))))"

text \<open>The three assignments of the loop body (lines 72 to 74), in their order.\<close>

definition parse_row :: "('f, 'g) builtins \<Rightarrow> row \<Rightarrow> exn + (string option \<times> 'f item)" where
  "parse_row lib row =
     (case row ''qid'' of
        None \<Rightarrow> Inl (KeyError ''qid'')
      | Some qid \<Rightarrow>
          (case row ''label'' of
             None \<Rightarrow> Inl (KeyError ''label'')
           | Some None \<Rightarrow> Inl (TypeError To_int)
           | Some (Some text) \<Rightarrow>
               (case py_int lib text of
                  Inl message \<Rightarrow> Inl (ValueError message)
                | Inr label \<Rightarrow>
                    (case features_of lib row FEATURE_COLS of
                       Inl e \<Rightarrow> Inl e
                     | Inr features \<Rightarrow> Inr (qid, (features, label))))))"

text \<open>
  \<^verbatim>\<open>by_query[qid].append((features, label))\<close> on a \<^verbatim>\<open>defaultdict(list)\<close>. A Python
  dictionary keeps its keys in the order of their insertion, so it is an association list:
  a known key gets the item at the end of its list, a new key is added last.
\<close>

fun append_item :: "string option \<Rightarrow> 'f item \<Rightarrow> 'f by_query \<Rightarrow> 'f by_query" where
  "append_item qid item [] = [(qid, [item])]"
| "append_item qid item ((k, items) # rest) =
     (if k = qid then (k, items @ [item]) # rest
      else (k, items) # append_item qid item rest)"

text \<open>The loop over the reader (lines 71 to 75); an exception ends it.\<close>

fun read_rows :: "('f, 'g) builtins \<Rightarrow> row list \<Rightarrow> 'f by_query \<Rightarrow> exn + 'f by_query" where
  "read_rows lib [] by_query = Inr by_query"
| "read_rows lib (row # rows) by_query =
     (case parse_row lib row of
        Inl e \<Rightarrow> Inl e
      | Inr (qid, item) \<Rightarrow> read_rows lib rows (append_item qid item by_query))"

subsection \<open>\<^verbatim>\<open>load_csv\<close>: filtering and flattening\<close>

record 'f acc =
  X_rows :: "'f list list"
  y_rows :: "int list"
  groups :: "nat list"
  skipped :: nat

text \<open>The inner loop (lines 89 to 91).\<close>

fun emit_items :: "'f item list \<Rightarrow> 'f acc \<Rightarrow> 'f acc" where
  "emit_items [] st = st"
| "emit_items ((features, label) # items) st =
     emit_items items (st\<lparr>X_rows := X_rows st @ [features], y_rows := y_rows st @ [label]\<rparr>)"

text \<open>The loop over \<^verbatim>\<open>by_query.items()\<close> (lines 82 to 92).\<close>

fun filter_groups :: "'f by_query \<Rightarrow> 'f acc \<Rightarrow> 'f acc" where
  "filter_groups [] st = st"
| "filter_groups ((qid, items) # rest) st =
     (let labels = map snd items in
      if card (set labels) < 2 then filter_groups rest (st\<lparr>skipped := skipped st + 1\<rparr>)
      else filter_groups rest
             (let st' = emit_items items st in st'\<lparr>groups := groups st' @ [length items]\<rparr>))"

text \<open>
  The two loops of \<^verbatim>\<open>load_csv\<close> (lines 67 to 92), from the empty dictionary and the
  empty lists to the state in which the second loop ends. The argument stands for the file
  at \<^verbatim>\<open>path\<close>, as \<^verbatim>\<open>csv.reader\<close> splits it.
\<close>

definition group_and_filter :: "('f, 'g) builtins \<Rightarrow> string list list \<Rightarrow> exn + 'f acc" where
  "group_and_filter lib table =
     (case read_rows lib (DictReader table) [] of
        Inl e \<Rightarrow> Inl e
      | Inr by_query \<Rightarrow>
          Inr (filter_groups by_query \<lparr>X_rows = [], y_rows = [], groups = [], skipped = 0\<rparr>))"

text \<open>
  \<^verbatim>\<open>load_csv\<close>: the loops, then lines 94 to 110. The result is the pair of what was
  printed and either the exception or \<^verbatim>\<open>(X, y, groups)\<close>; the array \<open>X\<close> is the list
  of its rows.
\<close>

definition load_csv ::
  "('f, 'g) builtins \<Rightarrow> string list list \<Rightarrow> msg list \<times> (exn + 'g list list \<times> int list \<times> nat list)"
where
  "load_csv lib table =
     (case group_and_filter lib table of
        Inl e \<Rightarrow> ([], Inl e)
      | Inr st \<Rightarrow>
          (let err = (if skipped st \<noteq> 0 then [Skipped_queries (skipped st)] else [])
           in if X_rows st = [] then (err @ [No_usable_data], Inl (SystemExit 1))
              else (case np_array_int32 (y_rows st) of
                      Inl e \<Rightarrow> (err, Inl e)
                    | Inr y \<Rightarrow> (err, Inr (map (map (np_float32 lib)) (X_rows st), y, groups st)))))"

subsection \<open>\<^verbatim>\<open>train\<close> and \<^verbatim>\<open>main\<close>\<close>

text \<open>The dictionary \<^verbatim>\<open>params\<close>, the data set and the call of \<^verbatim>\<open>lgb.train\<close>, as
  records of what the script passes.\<close>

record train_params =
  objective :: string
  metric :: string
  ndcg_eval_at :: "nat list"
  label_gain :: "int list"
  learning_rate :: real
  num_leaves :: nat
  min_data_in_leaf :: nat
  verbose :: int

text \<open>
  An array is its shape and its elements in row order. \<open>np_array\<close> is \<^verbatim>\<open>np.array\<close> on a
  list of rows of one length: the list of no rows gives the shape \<^verbatim>\<open>(0,)\<close>.
\<close>

record 'g ndarray =
  shape :: "nat list"
  flat :: "'g list"

definition np_array :: "'g list list \<Rightarrow> 'g ndarray" where
  "np_array rows =
     \<lparr>shape = (case rows of [] \<Rightarrow> [0] | r # _ \<Rightarrow> [length rows, length r]),
      flat = concat rows\<rparr>"

record 'g dataset =
  data :: "'g ndarray"
  label :: "int list"
  group :: "nat list"
  feature_name :: "string list"
  free_raw_data :: bool

record 'g lgb_train =
  params :: train_params
  train_set :: "'g dataset"
  num_boost_round :: nat
  valid_sets :: "'g dataset list"
  valid_names :: "string list"
  log_evaluation_period :: nat

text \<open>\<^verbatim>\<open>X.shape[1]\<close>: a shape with fewer than two entries has no second entry.\<close>

definition shape1 :: "'g ndarray \<Rightarrow> exn + nat" where
  "shape1 X = (case shape X of n # d # _ \<Rightarrow> Inr d | _ \<Rightarrow> Inl IndexError)"

text \<open>What \<^verbatim>\<open>train\<close> passes to \<^verbatim>\<open>lgb.train\<close> (lines 115 to 134 and 144 to 151).\<close>

definition train_call :: "'g ndarray \<Rightarrow> int list \<Rightarrow> nat list \<Rightarrow> 'g lgb_train" where
  "train_call X y gs =
     (let train_data = \<lparr>data = X, label = y, group = gs,
                        feature_name = FEATURE_COLS, free_raw_data = False\<rparr>
      in \<lparr>params = \<lparr>objective = ''lambdarank'', metric = ''ndcg'', ndcg_eval_at = [3, 5],
                     label_gain = LABEL_GAIN, learning_rate = 5 / 100, num_leaves = 31,
                     min_data_in_leaf = 5, verbose = - 1\<rparr>,
          train_set = train_data, num_boost_round = 300, valid_sets = [train_data],
          valid_names = [''train''], log_evaluation_period = 50\<rparr>)"

text \<open>
  \<^verbatim>\<open>train\<close> returns what \<^verbatim>\<open>lgb.train\<close> returns, and the boosting is the library's.
  The model ends where the script calls the library: the result is what was printed and
  either the exception raised before the call or the call that is made.
\<close>

definition train :: "'g ndarray \<Rightarrow> int list \<Rightarrow> nat list \<Rightarrow> msg list \<times> (exn + 'g lgb_train)" where
  "train X y gs =
     (case shape1 X of
        Inl e \<Rightarrow> ([], Inl e)
      | Inr d \<Rightarrow> ([Training (length y) (length gs) d (num_boost_round (train_call X y gs))],
                 Inr (train_call X y gs)))"

record args =
  input :: string
  output' :: string
  s3_bucket :: string
  s3_key :: string

text \<open>
  \<^verbatim>\<open>main\<close> from the first message to the call of \<^verbatim>\<open>train\<close> (lines 184 to 191); the
  second argument stands for the file at \<^verbatim>\<open>args.input\<close>. \<^verbatim>\<open>load_csv\<close> gives \<open>X\<close> as
  the list of its rows, and \<open>np_array X\<close> is that array with its shape. Saving and
  uploading the booster that the library returns come after and are not modelled.
\<close>

definition main ::
  "('f, 'g) builtins \<Rightarrow> args \<Rightarrow> string list list \<Rightarrow> msg list \<times> (exn + 'g lgb_train)"
where
  "main lib args table =
     (case load_csv lib table of
        (err, Inl e) \<Rightarrow> (Loading (input args) # err, Inl e)
      | (err, Inr (X, y, gs)) \<Rightarrow>
          (case shape1 (np_array X) of
             Inl e \<Rightarrow> (Loading (input args) # err, Inl e)
           | Inr d \<Rightarrow>
               (case train (np_array X) y gs of
                  (err', r) \<Rightarrow>
                    (Loading (input args) # err @ [Loaded (length y) (length gs) d] @ err', r))))"

subsection \<open>The records of an input\<close>

text \<open>
  The notions of the specification, over the records that the rows parse to: a record is
  a query key with an item. \<open>first_occurrences\<close> keeps the first occurrence of every
  element, \<open>query_ids\<close> are the keys in the order in which they first occur, \<open>group_of\<close>
  are the items of a key in the order of the input, and \<open>distinct_label_count\<close> is the
  number of different labels among items.
\<close>

primrec first_occurrences :: "'a list \<Rightarrow> 'a list" where
  "first_occurrences [] = []"
| "first_occurrences (x # xs) = x # filter (\<lambda>y. y \<noteq> x) (first_occurrences xs)"

definition query_ids :: "('k \<times> 'v) list \<Rightarrow> 'k list" where
  "query_ids recs = first_occurrences (map fst recs)"

definition group_of :: "'k \<Rightarrow> ('k \<times> 'v) list \<Rightarrow> 'v list" where
  "group_of q recs = map snd (filter (\<lambda>r. fst r = q) recs)"

definition distinct_label_count :: "'f item list \<Rightarrow> nat" where
  "distinct_label_count items = card (set (map snd items))"

definition usable_ids :: "('k \<times> 'f item) list \<Rightarrow> 'k list" where
  "usable_ids recs = filter (\<lambda>q. 2 \<le> distinct_label_count (group_of q recs)) (query_ids recs)"

text \<open>All items carry the same label, in the words of the specification.\<close>

definition same_label :: "'f item list \<Rightarrow> bool" where
  "same_label items \<longleftrightarrow> (\<forall>a\<in>set items. \<forall>b\<in>set items. snd a = snd b)"

text \<open>
  The fields that \<^verbatim>\<open>load_csv\<close> reads from every row, in the order in which it reads
  them, and the fields of a row whose text the conversion applied to them rejects.
\<close>

definition required_fields :: "string list" where
  "required_fields = ''qid'' # ''label'' # FEATURE_COLS"

definition malformed_fields :: "('f, 'g) builtins \<Rightarrow> row \<Rightarrow> string list" where
  "malformed_fields lib row =
     (case row ''label'' of
        Some (Some text) \<Rightarrow> if isl (py_int lib text) then [''label''] else []
      | _ \<Rightarrow> []) @
     filter (\<lambda>col. case row col of
                     Some (Some text) \<Rightarrow> isl (py_float lib text)
                   | _ \<Rightarrow> False) FEATURE_COLS"

text \<open>
  What reading one field of a row raises, if anything: the lookup fails when the row has
  no such key; \<open>qid\<close> is not converted; the label goes through \<^verbatim>\<open>int\<close> and every other
  field through \<^verbatim>\<open>float\<close>, which fail on \<^verbatim>\<open>None\<close> and on a text they reject.
  \<open>first_error\<close> is the first error in a list of fields, in its order.
\<close>

definition field_error :: "('f, 'g) builtins \<Rightarrow> row \<Rightarrow> string \<Rightarrow> exn option" where
  "field_error lib row col =
     (case row col of
        None \<Rightarrow> Some (KeyError col)
      | Some cell \<Rightarrow>
          if col = ''qid'' then None
          else (case cell of
                  None \<Rightarrow> Some (TypeError (if col = ''label'' then To_int else To_float))
                | Some text \<Rightarrow>
                    if col = ''label''
                    then (case py_int lib text of
                            Inl message \<Rightarrow> Some (ValueError message)
                          | Inr _ \<Rightarrow> None)
                    else (case py_float lib text of
                            Inl message \<Rightarrow> Some (ValueError message)
                          | Inr _ \<Rightarrow> None)))"

primrec first_error :: "('a \<Rightarrow> exn option) \<Rightarrow> 'a list \<Rightarrow> exn option" where
  "first_error g [] = None"
| "first_error g (c # cs) = (case g c of Some e \<Rightarrow> Some e | None \<Rightarrow> first_error g cs)"

text \<open>
  Two rows that differ in the label only, the second carrying \<open>f l\<close> where the first
  carries \<open>l\<close>: they agree on \<open>qid\<close> and on every feature column, and \<^verbatim>\<open>int\<close> reads
  their label texts as \<open>l\<close> and as \<open>f l\<close>. \<open>labels_of\<close> are the labels that \<^verbatim>\<open>int\<close>
  reads in the rows of an input. \<open>relabel_records\<close> are the same records with every label
  \<open>l\<close> replaced by \<open>f l\<close>, and \<open>int32\<close> is the range of the element type of the label
  array.
\<close>

definition label_of :: "('f, 'g) builtins \<Rightarrow> row \<Rightarrow> int option" where
  "label_of lib row =
     (case row ''label'' of
        Some (Some text) \<Rightarrow> (case py_int lib text of Inl _ \<Rightarrow> None | Inr l \<Rightarrow> Some l)
      | _ \<Rightarrow> None)"

definition labels_of :: "('f, 'g) builtins \<Rightarrow> row list \<Rightarrow> int list" where
  "labels_of lib rows = List.map_filter (label_of lib) rows"

definition relabelled_row :: "('f, 'g) builtins \<Rightarrow> (int \<Rightarrow> int) \<Rightarrow> row \<Rightarrow> row \<Rightarrow> bool" where
  "relabelled_row lib f r r' \<longleftrightarrow>
     r' ''qid'' = r ''qid'' \<and> list_all (\<lambda>col. r' col = r col) FEATURE_COLS \<and>
     (case (label_of lib r, label_of lib r') of
        (Some l, Some l') \<Rightarrow> l' = f l
      | _ \<Rightarrow> False)"

definition relabel_records ::
  "(int \<Rightarrow> int) \<Rightarrow> ('k \<times> 'f item) list \<Rightarrow> ('k \<times> 'f item) list" where
  "relabel_records f recs = map (\<lambda>(q, features, l). (q, features, f l)) recs"

definition int32 :: "int \<Rightarrow> bool" where
  "int32 v \<longleftrightarrow> - (2 ^ 31) \<le> v \<and> v < 2 ^ 31"

subsection \<open>An instance of the built-ins, and example files\<close>

text \<open>
  For evaluating the model on concrete files: \<open>dec_int\<close> reads a decimal literal with an
  optional minus sign, as \<^verbatim>\<open>int\<close> does, and \<open>dec_float\<close> accepts digits with at most
  one decimal point and stands for the float by its text. On every text used below they
  accept or reject as Python does, with Python's message; other forms that Python accepts
  (blanks around the number, a plus sign, underscores, exponents) are not used.
  \<open>py_repr\<close> is \<^verbatim>\<open>repr\<close> on a text without quotes, backslashes or control characters.
\<close>

fun digit_val :: "char \<Rightarrow> nat option" where
  "digit_val c =
     map_of [(CHR ''0'', 0), (CHR ''1'', 1), (CHR ''2'', 2), (CHR ''3'', 3), (CHR ''4'', 4),
             (CHR ''5'', 5), (CHR ''6'', 6), (CHR ''7'', 7), (CHR ''8'', 8), (CHR ''9'', 9)] c"

fun dec_nat :: "string \<Rightarrow> nat \<Rightarrow> nat option" where
  "dec_nat [] n = Some n"
| "dec_nat (c # cs) n =
     (case digit_val c of None \<Rightarrow> None | Some d \<Rightarrow> dec_nat cs (10 * n + d))"

definition dec_int :: "string \<Rightarrow> int option" where
  "dec_int s =
     (case s of
        [] \<Rightarrow> None
      | c # cs \<Rightarrow>
          if c = CHR ''-''
          then (if cs = [] then None else map_option (\<lambda>n. - int n) (dec_nat cs 0))
          else map_option int (dec_nat s 0))"

definition dec_float :: "string \<Rightarrow> string option" where
  "dec_float s =
     (let digits = filter (\<lambda>c. c \<noteq> CHR ''.'') s in
      case dec_nat digits 0 of
        None \<Rightarrow> None
      | Some _ \<Rightarrow> if length s \<le> length digits + 1 \<and> digits \<noteq> [] then Some s else None)"

definition py_repr :: "string \<Rightarrow> string" where
  "py_repr s = CHR 0x27 # s @ [CHR 0x27]"

definition int_message :: "string \<Rightarrow> string" where
  "int_message s = ''invalid literal for int() with base 10: '' @ py_repr s"

definition float_message :: "string \<Rightarrow> string" where
  "float_message s = ''could not convert string to float: '' @ py_repr s"

definition sample :: "(string, string) builtins" where
  "sample =
     \<lparr>py_int = (\<lambda>s. case dec_int s of None \<Rightarrow> Inl (int_message s) | Some v \<Rightarrow> Inr v),
      py_float = (\<lambda>s. case dec_float s of None \<Rightarrow> Inl (float_message s) | Some x \<Rightarrow> Inr x),
      np_float32 = (\<lambda>x. x)\<rparr>"

definition header :: "string list" where
  "header = ''qid'' # ''label'' # FEATURE_COLS"

text \<open>The scenario of the specification: three rows of \<open>q1\<close> with the labels 0, 1, 2 and
  two rows of \<open>q2\<close> with the label 1.\<close>

definition scenario :: "string list list" where
  "scenario =
     [header,
      [''q1'', ''0'', ''0.1'', ''1'', ''1'', ''1'', ''1'', ''1'', ''1''],
      [''q1'', ''1'', ''0.2'', ''1'', ''1'', ''1'', ''1'', ''1'', ''1''],
      [''q1'', ''2'', ''0.3'', ''1'', ''1'', ''1'', ''1'', ''1'', ''1''],
      [''q2'', ''1'', ''0.4'', ''1'', ''1'', ''1'', ''1'', ''1'', ''1''],
      [''q2'', ''1'', ''0.5'', ''1'', ''1'', ''1'', ''1'', ''1'', ''1'']]"

definition scenario_records :: "(string option \<times> string item) list" where
  "scenario_records =
     [(Some ''q1'', [''0.1'', ''1'', ''1'', ''1'', ''1'', ''1'', ''1''], 0),
      (Some ''q1'', [''0.2'', ''1'', ''1'', ''1'', ''1'', ''1'', ''1''], 1),
      (Some ''q1'', [''0.3'', ''1'', ''1'', ''1'', ''1'', ''1'', ''1''], 2),
      (Some ''q2'', [''0.4'', ''1'', ''1'', ''1'', ''1'', ''1'', ''1''], 1),
      (Some ''q2'', [''0.5'', ''1'', ''1'', ''1'', ''1'', ''1'', ''1''], 1)]"

text \<open>Two queries, each with one label only.\<close>

definition uniform_only :: "string list list" where
  "uniform_only =
     [header,
      [''q1'', ''1'', ''0.1'', ''1'', ''1'', ''1'', ''1'', ''1'', ''1''],
      [''q2'', ''0'', ''0.2'', ''1'', ''1'', ''1'', ''1'', ''1'', ''1''],
      [''q1'', ''1'', ''0.3'', ''1'', ''1'', ''1'', ''1'', ''1'', ''1'']]"

definition uniform_only_records :: "(string option \<times> string item) list" where
  "uniform_only_records =
     [(Some ''q1'', [''0.1'', ''1'', ''1'', ''1'', ''1'', ''1'', ''1''], 1),
      (Some ''q2'', [''0.2'', ''1'', ''1'', ''1'', ''1'', ''1'', ''1''], 0),
      (Some ''q1'', [''0.3'', ''1'', ''1'', ''1'', ''1'', ''1'', ''1''], 1)]"

text \<open>Three queries whose rows alternate; \<open>q3\<close> has a single row.\<close>

definition interleaved :: "string list list" where
  "interleaved =
     [header,
      [''q2'', ''1'', ''0.1'', ''1'', ''1'', ''1'', ''1'', ''1'', ''1''],
      [''q1'', ''0'', ''0.2'', ''1'', ''1'', ''1'', ''1'', ''1'', ''1''],
      [''q2'', ''0'', ''0.3'', ''1'', ''1'', ''1'', ''1'', ''1'', ''1''],
      [''q3'', ''1'', ''0.4'', ''1'', ''1'', ''1'', ''1'', ''1'', ''1''],
      [''q1'', ''2'', ''0.5'', ''1'', ''1'', ''1'', ''1'', ''1'', ''1'']]"

definition interleaved_records :: "(string option \<times> string item) list" where
  "interleaved_records =
     [(Some ''q2'', [''0.1'', ''1'', ''1'', ''1'', ''1'', ''1'', ''1''], 1),
      (Some ''q1'', [''0.2'', ''1'', ''1'', ''1'', ''1'', ''1'', ''1''], 0),
      (Some ''q2'', [''0.3'', ''1'', ''1'', ''1'', ''1'', ''1'', ''1''], 0),
      (Some ''q3'', [''0.4'', ''1'', ''1'', ''1'', ''1'', ''1'', ''1''], 1),
      (Some ''q1'', [''0.5'', ''1'', ''1'', ''1'', ''1'', ''1'', ''1''], 2)]"

text \<open>An array of no rows and seven columns, as \<^verbatim>\<open>np.empty((0, 7))\<close> gives.\<close>

definition no_rows :: "string ndarray" where
  "no_rows = \<lparr>shape = [0, 7], flat = []\<rparr>"

definition sample_args :: args where
  "sample_args =
     \<lparr>input = ''training.csv'', output' = ''model.txt'', s3_bucket = [], s3_key = []\<rparr>"

text \<open>A feature that is not a number, in the first row and in the second.\<close>

definition bad_feature_first :: "string list list" where
  "bad_feature_first =
     [header,
      [''q1'', ''0'', ''abc'', ''1'', ''1'', ''1'', ''1'', ''1'', ''1''],
      [''q1'', ''1'', ''0.2'', ''1'', ''1'', ''1'', ''1'', ''1'', ''1'']]"

definition bad_feature_second :: "string list list" where
  "bad_feature_second =
     [header,
      [''q1'', ''0'', ''0.1'', ''1'', ''1'', ''1'', ''1'', ''1'', ''1''],
      [''q1'', ''1'', ''0.2'', ''1'', ''1'', ''abc'', ''1'', ''1'', ''1'']]"

text \<open>Headers that lack a required field: with no row, with rows, and with a first row
  whose label is not a number.\<close>

definition no_qid_no_rows :: "string list list" where
  "no_qid_no_rows = [''label'' # FEATURE_COLS]"

definition no_qid :: "string list list" where
  "no_qid =
     [''label'' # FEATURE_COLS,
      [''0'', ''0.1'', ''1'', ''1'', ''1'', ''1'', ''1'', ''1''],
      [''1'', ''0.2'', ''1'', ''1'', ''1'', ''1'', ''1'', ''1'']]"

definition no_f6_bad_label :: "string list list" where
  "no_f6_bad_label =
     [[''qid'', ''label'', ''f0_similarity'', ''f1_rank_score'', ''f2_authority'',
       ''f3_source_boost'', ''f4_crop_match'', ''f5_term_density''],
      [''q1'', ''abc'', ''0.1'', ''1'', ''1'', ''1'', ''1'', ''1''],
      [''q1'', ''1'', ''0.2'', ''1'', ''1'', ''1'', ''1'', ''1'']]"

text \<open>The scenario with the labels 1 and 2 replaced by 5 and \<open>-1\<close>; and a query of two rows
  with the labels 0 and 1, and with the labels 0 and \<open>2 ^ 63\<close>.\<close>

definition relabelled :: "string list list" where
  "relabelled =
     [header,
      [''q1'', ''0'', ''0.1'', ''1'', ''1'', ''1'', ''1'', ''1'', ''1''],
      [''q1'', ''5'', ''0.2'', ''1'', ''1'', ''1'', ''1'', ''1'', ''1''],
      [''q1'', ''-1'', ''0.3'', ''1'', ''1'', ''1'', ''1'', ''1'', ''1''],
      [''q2'', ''5'', ''0.4'', ''1'', ''1'', ''1'', ''1'', ''1'', ''1''],
      [''q2'', ''5'', ''0.5'', ''1'', ''1'', ''1'', ''1'', ''1'', ''1'']]"

definition relabel :: "int \<Rightarrow> int" where
  "relabel l = (if l = 1 then 5 else if l = 2 then - 1 else l)"

definition two_labels :: "string list list" where
  "two_labels =
     [header,
      [''q1'', ''0'', ''0.1'', ''1'', ''1'', ''1'', ''1'', ''1'', ''1''],
      [''q1'', ''1'', ''0.2'', ''1'', ''1'', ''1'', ''1'', ''1'', ''1'']]"

definition huge_label :: "string list list" where
  "huge_label =
     [header,
      [''q1'', ''0'', ''0.1'', ''1'', ''1'', ''1'', ''1'', ''1'', ''1''],
      [''q1'', ''9223372036854775808'', ''0.2'', ''1'', ''1'', ''1'', ''1'', ''1'', ''1'']]"

section \<open>Properties\<close>

subsection \<open>The loops\<close>

lemma emit_items_X: "X_rows (emit_items items st) = X_rows st @ map fst items"
  by (induction items st rule: emit_items.induct) auto
lemma emit_items_y: "y_rows (emit_items items st) = y_rows st @ map snd items"
  by (induction items st rule: emit_items.induct) auto
lemma emit_items_groups: "groups (emit_items items st) = groups st"
  by (induction items st rule: emit_items.induct) auto
lemma emit_items_skipped: "skipped (emit_items items st) = skipped st"
  by (induction items st rule: emit_items.induct) auto

lemmas emit_items_simps = emit_items_X emit_items_y emit_items_groups emit_items_skipped

lemma filter_groups_X:
  "X_rows (filter_groups bq st) =
     X_rows st @ concat (map (\<lambda>(q, items). map fst items)
       (filter (\<lambda>(q, items). 2 \<le> distinct_label_count items) bq))"
  by (induction bq st rule: filter_groups.induct)
     (auto simp: Let_def emit_items_simps distinct_label_count_def)

lemma filter_groups_y:
  "y_rows (filter_groups bq st) =
     y_rows st @ concat (map (\<lambda>(q, items). map snd items)
       (filter (\<lambda>(q, items). 2 \<le> distinct_label_count items) bq))"
  by (induction bq st rule: filter_groups.induct)
     (auto simp: Let_def emit_items_simps distinct_label_count_def)

lemma filter_groups_groups:
  "groups (filter_groups bq st) =
     groups st @ map (\<lambda>(q, items). length items)
       (filter (\<lambda>(q, items). 2 \<le> distinct_label_count items) bq)"
  by (induction bq st rule: filter_groups.induct)
     (auto simp: Let_def emit_items_simps distinct_label_count_def)

lemma filter_groups_skipped:
  "skipped (filter_groups bq st) =
     skipped st + length (filter (\<lambda>(q, items). distinct_label_count items < 2) bq)"
  by (induction bq st rule: filter_groups.induct)
     (auto simp: Let_def emit_items_simps distinct_label_count_def)

lemma first_occurrences_set [simp]: "set (first_occurrences xs) = set xs"
  by (induction xs) auto

lemma first_occurrences_distinct [simp]: "distinct (first_occurrences xs)"
  by (induction xs) auto

lemma first_occurrences_snoc:
  "first_occurrences (xs @ [q]) =
     (if q \<in> set xs then first_occurrences xs else first_occurrences xs @ [q])"
  by (induction xs) auto

lemma append_item_map:
  "distinct ks \<Longrightarrow>
   append_item q it (map (\<lambda>k. (k, g k)) ks) =
     (if q \<in> set ks then map (\<lambda>k. (k, if k = q then g k @ [it] else g k)) ks
      else map (\<lambda>k. (k, g k)) ks @ [(q, [it])])"
  by (induction ks) auto

lemma fold_append_item_snoc:
  "fold (\<lambda>(q, it). append_item q it) (recs @ [r]) bq =
     append_item (fst r) (snd r) (fold (\<lambda>(q, it). append_item q it) recs bq)"
  by (cases r) simp

lemma grouping:
  "fold (\<lambda>(q, it). append_item q it) recs [] = map (\<lambda>q. (q, group_of q recs)) (query_ids recs)"
proof (induction recs rule: rev_induct)
  case Nil
  show ?case by (simp add: query_ids_def)
next
  case (snoc r recs)
  obtain q it where r: "r = (q, it)" by (cases r)
  have "fold (\<lambda>(q, it). append_item q it) (recs @ [r]) [] =
        append_item q it (map (\<lambda>k. (k, group_of k recs)) (query_ids recs))"
    using snoc r by simp
  also have "\<dots> = map (\<lambda>k. (k, group_of k (recs @ [r]))) (query_ids (recs @ [r]))"
    by (subst append_item_map)
       (auto simp: query_ids_def first_occurrences_snoc group_of_def r filter_empty_conv)
  finally show ?case .
qed

lemma read_rows_ok:
  "map (parse_row lib) rows = map Inr recs \<Longrightarrow>
   read_rows lib rows bq = Inr (fold (\<lambda>(q, it). append_item q it) recs bq)"
proof (induction rows arbitrary: recs bq)
  case Nil
  then show ?case by simp
next
  case (Cons row rows)
  then obtain r rs where "recs = r # rs" by (cases recs) auto
  with Cons show ?case by (cases r) auto
qed

lemma group_and_filter_ok:
  assumes "map (parse_row lib) (DictReader table) = map Inr recs"
  shows "group_and_filter lib table =
           Inr (filter_groups (map (\<lambda>q. (q, group_of q recs)) (query_ids recs))
                  \<lparr>X_rows = [], y_rows = [], groups = [], skipped = 0\<rparr>)"
  by (simp add: group_and_filter_def read_rows_ok [OF assms] grouping)

lemma final_X:
  "X_rows (filter_groups (map (\<lambda>q. (q, group_of q recs)) (query_ids recs))
       \<lparr>X_rows = [], y_rows = [], groups = [], skipped = 0\<rparr>) =
     concat (map (\<lambda>q. map fst (group_of q recs)) (usable_ids recs))"
  by (simp add: filter_groups_X usable_ids_def filter_map comp_def)

lemma final_y:
  "y_rows (filter_groups (map (\<lambda>q. (q, group_of q recs)) (query_ids recs))
       \<lparr>X_rows = [], y_rows = [], groups = [], skipped = 0\<rparr>) =
     concat (map (\<lambda>q. map snd (group_of q recs)) (usable_ids recs))"
  by (simp add: filter_groups_y usable_ids_def filter_map comp_def)

lemma final_groups:
  "groups (filter_groups (map (\<lambda>q. (q, group_of q recs)) (query_ids recs))
       \<lparr>X_rows = [], y_rows = [], groups = [], skipped = 0\<rparr>) =
     map (\<lambda>q. length (group_of q recs)) (usable_ids recs)"
  by (simp add: filter_groups_groups usable_ids_def filter_map comp_def)

lemma final_skipped:
  "skipped (filter_groups (map (\<lambda>q. (q, group_of q recs)) (query_ids recs))
       \<lparr>X_rows = [], y_rows = [], groups = [], skipped = 0\<rparr>) =
     length (filter (\<lambda>q. distinct_label_count (group_of q recs) < 2) (query_ids recs))"
  by (simp add: filter_groups_skipped filter_map comp_def)

lemma np_array_int32_Inr: "np_array_int32 ys = Inr y \<Longrightarrow> y = ys"
  by (simp add: np_array_int32_def split: if_splits)

lemma group_and_filter_Inr:
  assumes "group_and_filter lib table = Inr st"
  shows "\<exists>by_query. read_rows lib (DictReader table) [] = Inr by_query \<and>
    st = filter_groups by_query \<lparr>X_rows = [], y_rows = [], groups = [], skipped = 0\<rparr>"
  using assms by (auto simp: group_and_filter_def split: sum.splits)

lemma load_csv_Inr:
  assumes "load_csv lib table = (err, Inr (X, y, gs))"
  shows "\<exists>st. group_and_filter lib table = Inr st \<and>
    X = map (map (np_float32 lib)) (X_rows st) \<and> y = y_rows st \<and> gs = groups st \<and>
    X_rows st \<noteq> [] \<and> np_array_int32 (y_rows st) = Inr (y_rows st) \<and>
    err = (if skipped st \<noteq> 0 then [Skipped_queries (skipped st)] else [])"
proof (cases "group_and_filter lib table")
  case (Inl e)
  with assms show ?thesis by (simp add: load_csv_def)
next
  case (Inr st)
  with assms show ?thesis
    by (auto simp: load_csv_def Let_def split: if_splits sum.splits dest: np_array_int32_Inr)
qed

lemma read_rows_Inr:
  "read_rows lib rows bq = Inr bq' \<Longrightarrow> \<exists>recs. map (parse_row lib) rows = map Inr recs"
proof (induction rows arbitrary: bq)
  case Nil
  show ?case by simp
next
  case (Cons row rows)
  from Cons.prems obtain q it where p: "parse_row lib row = Inr (q, it)"
    and r: "read_rows lib rows (append_item q it bq) = Inr bq'"
    by (auto split: sum.splits)
  from Cons.IH [OF r] obtain recs where "map (parse_row lib) rows = map Inr recs" ..
  with p have "map (parse_row lib) (row # rows) = map Inr ((q, it) # recs)" by simp
  then show ?case ..
qed

lemma distinct_label_count_le: "distinct_label_count items \<le> length items"
  unfolding distinct_label_count_def by (metis card_length length_map)

lemma filter_groups_sizes:
  "list_all (\<lambda>g. 2 \<le> g)
     (groups (filter_groups bq \<lparr>X_rows = [], y_rows = [], groups = [], skipped = 0\<rparr>))"
proof -
  have "2 \<le> length items" if "2 \<le> distinct_label_count items" for items :: "'a item list"
    using that distinct_label_count_le [of items] by simp
  then show ?thesis
    by (auto simp: filter_groups_groups list_all_iff)
qed


subsection \<open>Outputs in terms of the records\<close>

lemma same_label_iff: "distinct_label_count items < 2 \<longleftrightarrow> same_label items"
proof -
  have "distinct_label_count items < 2 \<longleftrightarrow> card (set (map snd items)) \<le> Suc 0"
    by (auto simp: distinct_label_count_def)
  also have "\<dots> \<longleftrightarrow> (\<forall>a\<in>set (map snd items). \<forall>b\<in>set (map snd items). a = b)"
    by (rule card_le_Suc0_iff_eq) simp
  also have "\<dots> \<longleftrightarrow> same_label items"
    by (auto simp: same_label_def)
  finally show ?thesis .
qed

lemma not_same_label_iff: "2 \<le> distinct_label_count items \<longleftrightarrow> \<not> same_label items"
  using same_label_iff [of items] by auto

lemma query_ids_set: "set (query_ids recs) = fst ` set recs"
  by (simp add: query_ids_def)

lemma query_ids_distinct: "distinct (query_ids recs)"
  by (simp add: query_ids_def)

lemma usable_ids_same_label:
  "usable_ids recs = filter (\<lambda>q. \<not> same_label (group_of q recs)) (query_ids recs)"
  by (simp add: usable_ids_def not_same_label_iff)

lemma skipped_count:
  "length (filter (\<lambda>q. distinct_label_count (group_of q recs) < 2) (query_ids recs)) =
   card {q \<in> fst ` set recs. same_label (group_of q recs)}"
proof -
  have "length (filter (\<lambda>q. same_label (group_of q recs)) (query_ids recs)) =
        card (set (filter (\<lambda>q. same_label (group_of q recs)) (query_ids recs)))"
    by (rule distinct_card [symmetric]) (simp add: query_ids_distinct)
  then show ?thesis by (simp add: same_label_iff query_ids_set)
qed

lemma load_csv_messages:
  assumes "group_and_filter lib table = Inr st"
  shows "fst (load_csv lib table) =
    (if skipped st \<noteq> 0 then [Skipped_queries (skipped st)] else []) @
    (if X_rows st = [] then [No_usable_data] else [])"
  using assms by (simp add: load_csv_def Let_def split: sum.splits)

lemma load_csv_success:
  assumes "load_csv lib table = (err, Inr (X, y, gs))"
  shows "\<exists>recs. map (parse_row lib) (DictReader table) = map Inr recs
    \<and> usable_ids recs \<noteq> []
    \<and> X = concat (map (\<lambda>q. map (map (np_float32 lib) \<circ> fst) (group_of q recs)) (usable_ids recs))
    \<and> y = concat (map (\<lambda>q. map snd (group_of q recs)) (usable_ids recs))
    \<and> gs = map (\<lambda>q. length (group_of q recs)) (usable_ids recs)"
proof -
  from load_csv_Inr [OF assms] obtain st where st: "group_and_filter lib table = Inr st"
    and out: "X = map (map (np_float32 lib)) (X_rows st)" "y = y_rows st" "gs = groups st"
    and ne: "X_rows st \<noteq> []"
    by blast
  from group_and_filter_Inr [OF st] obtain by_query where
    "read_rows lib (DictReader table) [] = Inr by_query" by blast
  from read_rows_Inr [OF this] obtain recs where
    recs: "map (parse_row lib) (DictReader table) = map Inr recs" ..
  from group_and_filter_ok [OF recs] st
  have st': "st = filter_groups (map (\<lambda>q. (q, group_of q recs)) (query_ids recs))
               \<lparr>X_rows = [], y_rows = [], groups = [], skipped = 0\<rparr>"
    by simp
  have "X = concat (map (\<lambda>q. map (map (np_float32 lib) \<circ> fst) (group_of q recs)) (usable_ids recs))"
    by (simp add: out st' final_X map_concat comp_def)
  moreover have "y = concat (map (\<lambda>q. map snd (group_of q recs)) (usable_ids recs))"
    by (simp add: out st' final_y)
  moreover have "gs = map (\<lambda>q. length (group_of q recs)) (usable_ids recs)"
    by (simp add: out st' final_groups)
  moreover have "usable_ids recs \<noteq> []"
    using ne by (auto simp: st' final_X)
  ultimately show ?thesis using recs by blast
qed

lemma load_csv_no_usable:
  assumes "map (parse_row lib) (DictReader table) = map Inr recs"
    and "\<forall>q. same_label (group_of q recs)"
  shows "load_csv lib table =
    ((if recs = [] then [] else [Skipped_queries (card (fst ` set recs))]) @ [No_usable_data],
     Inl (SystemExit 1))"
proof -
  have u: "usable_ids recs = []"
    using assms(2) by (simp add: usable_ids_same_label)
  have "length (filter (\<lambda>q. distinct_label_count (group_of q recs) < 2) (query_ids recs)) =
        card (fst ` set recs)"
    using assms(2) by (simp add: skipped_count)
  moreover have "card (fst ` set recs) = 0 \<longleftrightarrow> recs = []"
    by simp
  ultimately show ?thesis
    by (simp add: load_csv_def group_and_filter_ok [OF assms(1)] final_X final_skipped u Let_def)
qed

lemma main_load_failure:
  assumes "load_csv lib table = (err, Inl e)"
  shows "main lib args table = (Loading (input args) # err, Inl e)"
  using assms by (simp add: main_def)

lemma load_csv_same_records:
  assumes "map (parse_row lib) (DictReader table) = map Inr recs"
    and "map (parse_row lib) (DictReader table') = map Inr recs"
  shows "load_csv lib table' = load_csv lib table"
  by (simp add: load_csv_def group_and_filter_ok [OF assms(1)] group_and_filter_ok [OF assms(2)])

lemma load_csv_sizes:
  assumes "load_csv lib table = (err, Inr (X, y, gs))"
  shows "gs \<noteq> [] \<and> list_all (\<lambda>g. 2 \<le> g) gs \<and> sum_list gs = length y \<and> length y = length X"
proof -
  from load_csv_Inr [OF assms] obtain st where st: "group_and_filter lib table = Inr st"
    and gs: "gs = groups st" by blast
  from group_and_filter_Inr [OF st] obtain by_query where
    "st = filter_groups by_query \<lparr>X_rows = [], y_rows = [], groups = [], skipped = 0\<rparr>"
    by blast
  with gs have 1: "list_all (\<lambda>g. 2 \<le> g) gs" by (simp add: filter_groups_sizes)
  from load_csv_success [OF assms] obtain recs where
    "map (parse_row lib) (DictReader table) = map Inr recs"
    and u: "usable_ids recs \<noteq> []"
    and X: "X = concat (map (\<lambda>q. map (map (np_float32 lib) \<circ> fst) (group_of q recs)) (usable_ids recs))"
    and y: "y = concat (map (\<lambda>q. map snd (group_of q recs)) (usable_ids recs))"
    and gs: "gs = map (\<lambda>q. length (group_of q recs)) (usable_ids recs)"
    by blast
  have "sum_list gs = length y"
    by (simp add: gs y length_concat comp_def)
  moreover have "length y = length X"
    by (simp add: X y length_concat comp_def)
  moreover have "gs \<noteq> []" using u by (simp add: gs)
  ultimately show ?thesis using 1 by simp
qed

lemma main_Inr:
  assumes "main lib args table = (out, Inr call)"
  shows "\<exists>err X y gs. load_csv lib table = (err, Inr (X, y, gs)) \<and>
    call = train_call (np_array X) y gs"
  using assms
  by (auto simp: main_def train_def split: prod.splits sum.splits)

subsection \<open>Rows that do not parse\<close>

lemma first_error_None_iff: "first_error g cs = None \<longleftrightarrow> (\<forall>c\<in>set cs. g c = None)"
  by (induction cs) (auto split: option.splits)

lemma first_error_append:
  "first_error g (xs @ ys) =
     (case first_error g xs of Some e \<Rightarrow> Some e | None \<Rightarrow> first_error g ys)"
  by (induction xs) (auto split: option.splits)

lemma first_error_Some:
  "first_error g cs = Some e \<Longrightarrow>
   \<exists>before c after. cs = before @ c # after \<and> (\<forall>c'\<in>set before. g c' = None) \<and> g c = Some e"
proof (induction cs)
  case Nil
  then show ?case by simp
next
  case (Cons c cs)
  show ?case
  proof (cases "g c")
    case None
    with Cons.prems have "first_error g cs = Some e" by simp
    from Cons.IH [OF this] obtain before c' after where
      "cs = before @ c' # after" "\<forall>a\<in>set before. g a = None" "g c' = Some e" by blast
    with None have "c # cs = (c # before) @ c' # after \<and>
      (\<forall>a\<in>set (c # before). g a = None) \<and> g c' = Some e" by simp
    then show ?thesis by blast
  next
    case (Some e')
    with Cons.prems have "c # cs = [] @ c # cs \<and> (\<forall>a\<in>set []. g a = None) \<and> g c = Some e"
      by simp
    then show ?thesis by blast
  qed
qed

lemma feature_col_names:
  "col \<in> set FEATURE_COLS \<Longrightarrow> col \<noteq> ''qid'' \<and> col \<noteq> ''label''"
  by (auto simp: FEATURE_COLS_def)

lemma features_of_first_error:
  assumes "''qid'' \<notin> set cols" and "''label'' \<notin> set cols"
  shows "(case features_of lib row cols of Inl e \<Rightarrow> Some e | Inr _ \<Rightarrow> None) =
         first_error (field_error lib row) cols"
  using assms
  by (induction cols) (auto simp: field_error_def split: option.splits sum.splits)

lemma parse_row_first_error:
  "(case parse_row lib row of Inl e \<Rightarrow> Some e | Inr _ \<Rightarrow> None) =
   first_error (field_error lib row) required_fields"
proof -
  have "''qid'' \<notin> set FEATURE_COLS" and "''label'' \<notin> set FEATURE_COLS"
    using feature_col_names by blast+
  from features_of_first_error [OF this, of lib row, symmetric] show ?thesis
    by (auto simp: parse_row_def required_fields_def field_error_def
             split: option.splits sum.splits)
qed

lemma parse_row_Inl_iff:
  "parse_row lib row = Inl e \<longleftrightarrow> first_error (field_error lib row) required_fields = Some e"
  using parse_row_first_error [of lib row] by (cases "parse_row lib row") auto

lemma parse_row_field_fails:
  assumes "col \<in> set required_fields" and "field_error lib row col = Some e0"
  shows "\<exists>e. parse_row lib row = Inl e"
proof -
  from assms have "first_error (field_error lib row) required_fields \<noteq> None"
    by (auto simp: first_error_None_iff)
  then show ?thesis by (auto simp: parse_row_Inl_iff)
qed

lemma parse_row_malformed:
  assumes "malformed_fields lib row \<noteq> []"
  shows "\<exists>e. parse_row lib row = Inl e"
proof (cases "\<exists>cell. row ''label'' = Some (Some cell) \<and> isl (py_int lib cell)")
  case True
  then obtain cell where "row ''label'' = Some (Some cell)" "isl (py_int lib cell)" by blast
  then have "\<exists>e0. field_error lib row ''label'' = Some e0"
    by (cases "py_int lib cell") (auto simp: field_error_def)
  then show ?thesis
    using parse_row_field_fails [of "''label''" lib row] by (auto simp: required_fields_def)
next
  case False
  with assms obtain col cell where col: "col \<in> set FEATURE_COLS"
    and "row col = Some (Some cell)" "isl (py_float lib cell)"
    by (auto simp: malformed_fields_def filter_empty_conv split: option.splits if_splits)
  with feature_col_names [OF col] have "\<exists>e0. field_error lib row col = Some e0"
    by (cases "py_float lib cell") (auto simp: field_error_def)
  then show ?thesis
    using parse_row_field_fails [of col lib row] col by (auto simp: required_fields_def)
qed

lemma parse_row_missing:
  assumes "col \<in> set required_fields" and "row col = None"
  shows "\<exists>e. parse_row lib row = Inl e"
  using parse_row_field_fails [OF assms(1), of lib row] assms(2)
  by (simp add: field_error_def)

lemma read_rows_failure:
  "map (parse_row lib) pre = map Inr recs \<Longrightarrow> parse_row lib bad = Inl e \<Longrightarrow>
   read_rows lib (pre @ bad # post) bq = Inl e"
proof (induction pre arbitrary: recs bq)
  case Nil
  then show ?case by simp
next
  case (Cons row pre)
  then obtain r rs where "recs = r # rs" by (cases recs) auto
  with Cons show ?case by (cases r) auto
qed

lemma first_failure:
  assumes "r \<in> set rows" and "parse_row lib r = Inl e0"
  shows "\<exists>pre bad post recs e. rows = pre @ bad # post \<and>
    map (parse_row lib) pre = map Inr recs \<and> parse_row lib bad = Inl e"
proof -
  from assms have "\<exists>r\<in>set rows. isl (parse_row lib r)" by force
  from split_list_first_prop [OF this] obtain pre bad post where
    rows: "rows = pre @ bad # post" and bad: "isl (parse_row lib bad)"
    and pre: "\<forall>r\<in>set pre. \<not> isl (parse_row lib r)" by blast
  from bad obtain e where e: "parse_row lib bad = Inl e" by (cases "parse_row lib bad") auto
  have "map (parse_row lib) pre = map Inr (map (\<lambda>r. projr (parse_row lib r)) pre)"
    using pre by (induction pre) (auto simp: sum.expand)
  with rows e show ?thesis by blast
qed

lemma load_csv_read_failure:
  assumes "DictReader table = pre @ bad # post"
    and "map (parse_row lib) pre = map Inr recs" and "parse_row lib bad = Inl e"
  shows "load_csv lib table = ([], Inl e)"
  by (simp add: load_csv_def group_and_filter_def assms(1) read_rows_failure [OF assms(2,3)])

lemma fold_update_Some_dom:
  "dom (fold (\<lambda>(key, cell) d. d(key \<mapsto> Some cell)) kvs d) = dom d \<union> fst ` set kvs"
  by (induction kvs arbitrary: d) (auto simp: dom_def)

lemma fold_update_None_dom:
  "dom (fold (\<lambda>key d. d(key \<mapsto> None)) ks d) = dom d \<union> set ks"
  by (induction ks arbitrary: d) (auto simp: dom_def)

lemma make_row_dom: "dom (make_row fieldnames cells) = set fieldnames"
proof -
  have "fst ` set (zip fieldnames cells) = set (take (length cells) fieldnames)"
    by (metis list.set_map map_fst_zip_take take_all_iff min.cobounded1 take_take min.commute nle_le)
  then have "dom (make_row fieldnames cells) =
      set (take (length cells) fieldnames) \<union> set (drop (length cells) fieldnames)"
    by (simp add: make_row_def fold_update_Some_dom fold_update_None_dom)
  also have "\<dots> = set (take (length cells) fieldnames @ drop (length cells) fieldnames)"
    by (simp only: set_append)
  finally show ?thesis by simp
qed

lemma make_row_None: "make_row fieldnames cells col = None \<longleftrightarrow> col \<notin> set fieldnames"
proof -
  have "col \<in> dom (make_row fieldnames cells) \<longleftrightarrow> make_row fieldnames cells col \<noteq> None"
    by (rule domIff)
  then show ?thesis unfolding make_row_dom by blast
qed

subsection \<open>Replacing labels\<close>

lemma query_ids_relabel: "query_ids (relabel_records f recs) = query_ids recs"
  by (simp add: query_ids_def relabel_records_def comp_def case_prod_unfold)

lemma group_of_relabel:
  "group_of q (relabel_records f recs) = map (\<lambda>(features, l). (features, f l)) (group_of q recs)"
  by (induction recs) (auto simp: group_of_def relabel_records_def)

lemma group_of_labels: "snd ` set (group_of q recs) \<subseteq> snd ` snd ` set recs"
  by (auto simp: group_of_def)

lemma labels_relabel:
  "map snd (map (\<lambda>(features, l). (features, f l)) items) = map f (map snd items)"
  by (induction items) auto

lemma features_relabel:
  "map fst (map (\<lambda>(features, l). (features, f l)) items) = map fst items"
  by (induction items) auto

lemma distinct_label_count_relabel:
  assumes "inj_on f (snd ` snd ` set recs)"
  shows "distinct_label_count (group_of q (relabel_records f recs)) =
         distinct_label_count (group_of q recs)"
proof -
  have "inj_on f (snd ` set (group_of q recs))"
    using assms group_of_labels [of q recs] by (rule inj_on_subset)
  then have "card (f ` snd ` set (group_of q recs)) = card (snd ` set (group_of q recs))"
    by (rule card_image)
  then show ?thesis
    by (simp only: distinct_label_count_def group_of_relabel labels_relabel set_map)
qed

lemma usable_ids_relabel:
  assumes "inj_on f (snd ` snd ` set recs)"
  shows "usable_ids (relabel_records f recs) = usable_ids recs"
  by (simp add: usable_ids_def query_ids_relabel distinct_label_count_relabel [OF assms])

lemma relabel_final:
  assumes "inj_on f (snd ` snd ` set recs)"
  defines "st \<equiv> filter_groups (map (\<lambda>q. (q, group_of q recs)) (query_ids recs))
               \<lparr>X_rows = [], y_rows = [], groups = [], skipped = 0\<rparr>"
    and "st' \<equiv> filter_groups (map (\<lambda>q. (q, group_of q (relabel_records f recs)))
                 (query_ids (relabel_records f recs)))
               \<lparr>X_rows = [], y_rows = [], groups = [], skipped = 0\<rparr>"
  shows "st' = st\<lparr>y_rows := map f (y_rows st)\<rparr>"
proof -
  note u = usable_ids_relabel [OF assms(1)]
  have "X_rows st' = concat (map (\<lambda>q. map fst (group_of q (relabel_records f recs)))
      (usable_ids (relabel_records f recs)))"
    unfolding st'_def by (rule final_X)
  then have "X_rows st' = X_rows st"
    by (simp only: st_def final_X u group_of_relabel features_relabel)
  moreover have "y_rows st' = concat (map (\<lambda>q. map snd (group_of q (relabel_records f recs)))
      (usable_ids (relabel_records f recs)))"
    unfolding st'_def by (rule final_y)
  then have "y_rows st' = map f (y_rows st)"
    by (simp add: st_def final_y u group_of_relabel map_concat comp_def case_prod_unfold)
  moreover have "groups st' = map (\<lambda>q. length (group_of q (relabel_records f recs)))
      (usable_ids (relabel_records f recs))"
    unfolding st'_def by (rule final_groups)
  then have "groups st' = groups st"
    by (simp add: st_def final_groups u group_of_relabel)
  moreover have "skipped st' =
      length (filter (\<lambda>q. distinct_label_count (group_of q (relabel_records f recs)) < 2)
        (query_ids (relabel_records f recs)))"
    unfolding st'_def by (rule final_skipped)
  then have "skipped st' = skipped st"
    by (simp only: st_def final_skipped query_ids_relabel
          distinct_label_count_relabel [OF assms(1)])
  ultimately show ?thesis by simp
qed

lemma final_y_labels:
  "set (y_rows (filter_groups (map (\<lambda>q. (q, group_of q recs)) (query_ids recs))
       \<lparr>X_rows = [], y_rows = [], groups = [], skipped = 0\<rparr>)) \<subseteq> snd ` snd ` set recs"
proof -
  have "set (concat (map (\<lambda>q. map snd (group_of q recs)) (usable_ids recs)))
      \<subseteq> snd ` snd ` set recs"
    by (auto simp: group_of_def)
  then show ?thesis by (simp only: final_y)
qed

lemma features_of_cong:
  "\<forall>col\<in>set cols. r' col = r col \<Longrightarrow> features_of lib r' cols = features_of lib r cols"
  by (induction cols) (auto split: option.splits sum.splits)

lemma parse_row_relabel:
  assumes "relabelled_row lib f r r'"
  shows "parse_row lib r' = map_sum id (\<lambda>(q, features, l). (q, features, f l)) (parse_row lib r)"
proof -
  from assms have q: "r' ''qid'' = r ''qid''"
    and "\<forall>col\<in>set FEATURE_COLS. r' col = r col"
    by (simp_all add: relabelled_row_def list_all_iff)
  then have fs: "features_of lib r' FEATURE_COLS = features_of lib r FEATURE_COLS"
    by (simp add: features_of_cong)
  from assms obtain l where l: "label_of lib r = Some l" "label_of lib r' = Some (f l)"
    by (auto simp: relabelled_row_def split: option.splits)
  from l(1) obtain cell where c: "r ''label'' = Some (Some cell)" "py_int lib cell = Inr l"
    by (auto simp: label_of_def split: option.splits sum.splits)
  from l(2) obtain cell' where c': "r' ''label'' = Some (Some cell')" "py_int lib cell' = Inr (f l)"
    by (auto simp: label_of_def split: option.splits sum.splits)
  show ?thesis
    by (simp add: parse_row_def q fs c c' split: option.splits sum.splits)
qed

lemma parse_row_label:
  "parse_row lib r = Inr (q, features, l) \<Longrightarrow> label_of lib r = Some l"
  by (auto simp: parse_row_def label_of_def split: option.splits sum.splits)

lemma records_relabel:
  "list_all2 (relabelled_row lib f) rows rows' \<Longrightarrow>
   map (parse_row lib) rows = map Inr recs \<Longrightarrow>
   map (parse_row lib) rows' = map Inr (relabel_records f recs)"
proof (induction arbitrary: recs rule: list_all2_induct)
  case Nil
  then show ?case by (simp add: relabel_records_def)
next
  case (Cons r rows r' rows')
  from Cons.prems obtain rec rest where recs: "recs = rec # rest" by (cases recs) auto
  with Cons.prems have p: "parse_row lib r = Inr rec"
    and "map (parse_row lib) rows = map Inr rest" by simp_all
  from Cons.IH [OF this(2)]
  have "map (parse_row lib) rows' = map Inr (relabel_records f rest)" .
  moreover from parse_row_relabel [OF Cons.hyps(1)] p
  have "parse_row lib r' = Inr ((\<lambda>(q, features, l). (q, features, f l)) rec)" by simp
  ultimately show ?case by (simp add: recs relabel_records_def)
qed

lemma records_labels:
  "map (parse_row lib) rows = map Inr recs \<Longrightarrow> snd ` snd ` set recs \<subseteq> set (labels_of lib rows)"
proof (induction rows arbitrary: recs)
  case Nil
  then show ?case by simp
next
  case (Cons r rows)
  from Cons.prems obtain q features l rest where recs: "recs = (q, features, l) # rest"
    by (cases recs) auto
  with Cons.prems have "parse_row lib r = Inr (q, features, l)"
    and rest: "map (parse_row lib) rows = map Inr rest" by simp_all
  from parse_row_label [OF this(1)] Cons.IH [OF rest] show ?case
    by (auto simp: recs labels_of_def map_filter_simps)
qed

lemma append_item_relabel:
  "append_item q (features, f l) (map (\<lambda>(k, items). (k, map (\<lambda>(fs, l). (fs, f l)) items)) bq) =
   map (\<lambda>(k, items). (k, map (\<lambda>(fs, l). (fs, f l)) items)) (append_item q (features, l) bq)"
  by (induction bq) auto

lemma read_rows_relabel:
  "list_all2 (relabelled_row lib f) rows rows' \<Longrightarrow>
   read_rows lib rows' (map (\<lambda>(k, items). (k, map (\<lambda>(fs, l). (fs, f l)) items)) bq) =
   map_sum id (map (\<lambda>(k, items). (k, map (\<lambda>(fs, l). (fs, f l)) items)))
     (read_rows lib rows bq)"
proof (induction arbitrary: bq rule: list_all2_induct)
  case Nil
  show ?case by simp
next
  case (Cons r rows r' rows')
  note p = parse_row_relabel [OF Cons.hyps(1)]
  show ?case
  proof (cases "parse_row lib r")
    case (Inl e)
    with p show ?thesis by simp
  next
    case (Inr rec)
    obtain q features l where rec: "rec = (q, features, l)" by (cases rec)
    with p Inr have "parse_row lib r' = Inr (q, features, f l)" by simp
    with Inr rec show ?thesis
      by (simp add: append_item_relabel Cons.IH)
  qed
qed

lemma read_rows_relabel_failure:
  assumes "list_all2 (relabelled_row lib f) rows rows'" and "read_rows lib rows [] = Inl e"
  shows "read_rows lib rows' [] = Inl e"
  using read_rows_relabel [OF assms(1), of "[]"] assms(2) by simp

lemma field_error_present:
  assumes "field_error lib row col = Some e" and "row col \<noteq> None"
  shows "(\<exists>tg. e = TypeError tg) \<or> (\<exists>message. e = ValueError message)"
  using assms by (auto simp: field_error_def split: option.splits if_splits sum.splits)

lemma np_array_int32_ok: "\<forall>v\<in>set ys. int32 v \<Longrightarrow> np_array_int32 ys = Inr ys"
  by (simp add: np_array_int32_def int32_def list_all_iff)

subsection \<open>The example files\<close>

lemmas eval_defs =
  load_csv_def group_and_filter_def DictReader_def make_row_def parse_row_def FEATURE_COLS_def
  header_def sample_def dec_int_def dec_float_def np_array_int32_def Let_def

lemma scenario_parses:
  "map (parse_row sample) (DictReader scenario) = map Inr scenario_records"
  by (simp add: scenario_def scenario_records_def eval_defs)

lemma load_csv_scenario:
  "load_csv sample scenario =
     ([Skipped_queries 1],
      Inr ([[''0.1'', ''1'', ''1'', ''1'', ''1'', ''1'', ''1''],
            [''0.2'', ''1'', ''1'', ''1'', ''1'', ''1'', ''1''],
            [''0.3'', ''1'', ''1'', ''1'', ''1'', ''1'', ''1'']],
           [0, 1, 2], [3]))"
  by (simp add: scenario_def eval_defs)

lemma uniform_only_parses:
  "map (parse_row sample) (DictReader uniform_only) = map Inr uniform_only_records"
  by (simp add: uniform_only_def uniform_only_records_def eval_defs)

lemma interleaved_parses:
  "map (parse_row sample) (DictReader interleaved) = map Inr interleaved_records"
  by (simp add: interleaved_def interleaved_records_def eval_defs)

lemma load_csv_interleaved:
  "load_csv sample interleaved =
     ([Skipped_queries 1],
      Inr ([[''0.1'', ''1'', ''1'', ''1'', ''1'', ''1'', ''1''],
            [''0.3'', ''1'', ''1'', ''1'', ''1'', ''1'', ''1''],
            [''0.2'', ''1'', ''1'', ''1'', ''1'', ''1'', ''1''],
            [''0.5'', ''1'', ''1'', ''1'', ''1'', ''1'', ''1'']],
           [1, 0, 0, 2], [2, 2]))"
  by (simp add: interleaved_def eval_defs)

lemmas row_defs = malformed_fields_def eval_defs

lemma main_scenario:
  "main sample sample_args scenario =
     ([Loading ''training.csv'', Skipped_queries 1, Loaded 3 1 7, Training 3 1 7 300],
      Inr (train_call
            (np_array
              [[''0.1'', ''1'', ''1'', ''1'', ''1'', ''1'', ''1''],
               [''0.2'', ''1'', ''1'', ''1'', ''1'', ''1'', ''1''],
               [''0.3'', ''1'', ''1'', ''1'', ''1'', ''1'', ''1'']])
            [0, 1, 2] [3]))"
  by (simp add: main_def load_csv_scenario shape1_def np_array_def train_def sample_args_def)
     (simp add: train_call_def Let_def)

lemma scenario_relabelled:
  "list_all2 (relabelled_row sample relabel) (DictReader scenario) (DictReader relabelled)"
  by (simp add: scenario_def relabelled_def relabelled_row_def label_of_def relabel_def eval_defs)

lemma scenario_labels: "labels_of sample (DictReader scenario) = [0, 1, 2, 1, 1]"
  by (simp add: scenario_def labels_of_def label_of_def map_filter_simps eval_defs)

subsection \<open>Claims\<close>

text \<open>
  C1. When the rows of the input parse to the records \<open>recs\<close>, the second loop ends with
  the counter \<open>skipped\<close> equal to the number of query keys of the input whose records all
  carry the same label, and the rows and group sizes it has collected are those of the other
  queries only: a query with one label contributes nothing. The counter is what
  \<^verbatim>\<open>load_csv\<close> prints when it is not zero, and the collected rows are what it returns.
\<close>

theorem uniform_groups_are_skipped:
  assumes "map (parse_row lib) (DictReader table) = map Inr recs"
  shows "\<exists>st. group_and_filter lib table = Inr st
    \<and> skipped st = card {q \<in> fst ` set recs. same_label (group_of q recs)}
    \<and> X_rows st = concat (map (\<lambda>q. map fst (group_of q recs))
                      (filter (\<lambda>q. \<not> same_label (group_of q recs)) (query_ids recs)))
    \<and> y_rows st = concat (map (\<lambda>q. map snd (group_of q recs))
                      (filter (\<lambda>q. \<not> same_label (group_of q recs)) (query_ids recs)))
    \<and> groups st = map (\<lambda>q. length (group_of q recs))
                      (filter (\<lambda>q. \<not> same_label (group_of q recs)) (query_ids recs))
    \<and> fst (load_csv lib table) =
        (if skipped st \<noteq> 0 then [Skipped_queries (skipped st)] else []) @
        (if X_rows st = [] then [No_usable_data] else [])
    \<and> (\<forall>err X y gs. load_csv lib table = (err, Inr (X, y, gs)) \<longrightarrow>
          X = map (map (np_float32 lib)) (X_rows st) \<and> y = y_rows st \<and> gs = groups st)"
proof -
  let ?st = "filter_groups (map (\<lambda>q. (q, group_of q recs)) (query_ids recs))
               \<lparr>X_rows = [], y_rows = [], groups = [], skipped = 0\<rparr>"
  have st: "group_and_filter lib table = Inr ?st"
    by (rule group_and_filter_ok [OF assms])
  have "skipped ?st = card {q \<in> fst ` set recs. same_label (group_of q recs)}"
    by (simp only: final_skipped skipped_count)
  moreover have "X_rows ?st = concat (map (\<lambda>q. map fst (group_of q recs))
                      (filter (\<lambda>q. \<not> same_label (group_of q recs)) (query_ids recs)))"
    by (simp only: final_X usable_ids_same_label)
  moreover have "y_rows ?st = concat (map (\<lambda>q. map snd (group_of q recs))
                      (filter (\<lambda>q. \<not> same_label (group_of q recs)) (query_ids recs)))"
    by (simp only: final_y usable_ids_same_label)
  moreover have "groups ?st = map (\<lambda>q. length (group_of q recs))
                      (filter (\<lambda>q. \<not> same_label (group_of q recs)) (query_ids recs))"
    by (simp only: final_groups usable_ids_same_label)
  moreover note load_csv_messages [OF st]
  moreover have "X = map (map (np_float32 lib)) (X_rows ?st) \<and> y = y_rows ?st \<and> gs = groups ?st"
    if "load_csv lib table = (err, Inr (X, y, gs))" for err X y gs
    using load_csv_Inr [OF that] st by auto
  ultimately show ?thesis using st by blast
qed

theorem uniform_groups_are_skipped_witness:
  "map (parse_row sample) (DictReader scenario) = map Inr scenario_records \<and>
   (\<exists>st. group_and_filter sample scenario = Inr st
    \<and> skipped st = 1
    \<and> X_rows st = [[''0.1'', ''1'', ''1'', ''1'', ''1'', ''1'', ''1''],
            [''0.2'', ''1'', ''1'', ''1'', ''1'', ''1'', ''1''],
            [''0.3'', ''1'', ''1'', ''1'', ''1'', ''1'', ''1'']]
    \<and> y_rows st = [0, 1, 2] \<and> groups st = [3]
    \<and> fst (load_csv sample scenario) = [Skipped_queries 1])"
proof -
  have q: "query_ids scenario_records = [Some ''q1'', Some ''q2'']"
    by (simp add: query_ids_def scenario_records_def)
  have g1: "group_of (Some ''q1'') scenario_records =
     [([''0.1'', ''1'', ''1'', ''1'', ''1'', ''1'', ''1''], 0),
      ([''0.2'', ''1'', ''1'', ''1'', ''1'', ''1'', ''1''], 1),
      ([''0.3'', ''1'', ''1'', ''1'', ''1'', ''1'', ''1''], 2)]"
    by (simp add: group_of_def scenario_records_def)
  have g2: "group_of (Some ''q2'') scenario_records =
     [([''0.4'', ''1'', ''1'', ''1'', ''1'', ''1'', ''1''], 1),
      ([''0.5'', ''1'', ''1'', ''1'', ''1'', ''1'', ''1''], 1)]"
    by (simp add: group_of_def scenario_records_def)
  have s1: "\<not> same_label (group_of (Some ''q1'') scenario_records)"
    by (simp add: g1 same_label_def)
  have s2: "same_label (group_of (Some ''q2'') scenario_records)"
    by (simp add: g2 same_label_def)
  note s = s1 [unfolded g1] s2 [unfolded g2]
  have "{q \<in> fst ` set scenario_records. same_label (group_of q scenario_records)} = {Some ''q2''}"
    using s1 s2 by (auto simp: scenario_records_def)
  then have c: "card {q \<in> fst ` set scenario_records. same_label (group_of q scenario_records)} = 1"
    by simp
  from uniform_groups_are_skipped [OF scenario_parses] scenario_parses
  show ?thesis
    by (auto simp: q g1 g2 s c)
qed

text \<open>
  C2. Whenever \<^verbatim>\<open>load_csv\<close> returns, the group sizes add up to the number of labels, which
  is the number of feature rows; and one sequence \<open>qs\<close> of different query keys gives all
  three outputs: the features, the labels and the sizes of the groups of \<open>qs\<close>, one group
  after the other in this order.
\<close>

theorem group_sizes_sum:
  assumes "load_csv lib table = (err, Inr (X, y, gs))"
  shows "sum_list gs = length y \<and> length y = length X
    \<and> (\<exists>recs qs. map (parse_row lib) (DictReader table) = map Inr recs
          \<and> distinct qs
          \<and> X = concat (map (\<lambda>q. map (map (np_float32 lib) \<circ> fst) (group_of q recs)) qs)
          \<and> y = concat (map (\<lambda>q. map snd (group_of q recs)) qs)
          \<and> gs = map (\<lambda>q. length (group_of q recs)) qs)"
proof -
  from load_csv_success [OF assms] obtain recs where
    recs: "map (parse_row lib) (DictReader table) = map Inr recs"
    and X: "X = concat (map (\<lambda>q. map (map (np_float32 lib) \<circ> fst) (group_of q recs)) (usable_ids recs))"
    and y: "y = concat (map (\<lambda>q. map snd (group_of q recs)) (usable_ids recs))"
    and gs: "gs = map (\<lambda>q. length (group_of q recs)) (usable_ids recs)"
    by blast
  have "sum_list gs = length y"
    by (simp add: gs y length_concat comp_def)
  moreover have "length y = length X"
    by (simp add: X y length_concat comp_def)
  moreover have "distinct (usable_ids recs)"
    by (simp add: usable_ids_def query_ids_distinct)
  ultimately show ?thesis using recs X y gs by blast
qed

theorem group_sizes_sum_witness:
  "load_csv sample interleaved =
     ([Skipped_queries 1],
      Inr ([[''0.1'', ''1'', ''1'', ''1'', ''1'', ''1'', ''1''],
            [''0.3'', ''1'', ''1'', ''1'', ''1'', ''1'', ''1''],
            [''0.2'', ''1'', ''1'', ''1'', ''1'', ''1'', ''1''],
            [''0.5'', ''1'', ''1'', ''1'', ''1'', ''1'', ''1'']],
           [1, 0, 0, 2], [2, 2])) \<and>
   sum_list [2, 2 :: nat] = length [1, 0, 0, 2 :: int] \<and>
   length [1, 0, 0, 2 :: int] =
     length [[''0.1'', ''1'', ''1'', ''1'', ''1'', ''1'', ''1''],
            [''0.3'', ''1'', ''1'', ''1'', ''1'', ''1'', ''1''],
            [''0.2'', ''1'', ''1'', ''1'', ''1'', ''1'', ''1''],
            [''0.5'', ''1'', ''1'', ''1'', ''1'', ''1'', ''1'']]"
  using group_sizes_sum [OF load_csv_interleaved] load_csv_interleaved by blast

text \<open>
  C3. An input with no records, and an input whose records parse and whose every query has
  one label only, make \<^verbatim>\<open>load_csv\<close> print that there is no usable data and leave with
  \<^verbatim>\<open>sys.exit(1)\<close>; \<^verbatim>\<open>main\<close> ends with this exit: it prints no training message and
  makes no call of \<^verbatim>\<open>lgb.train\<close>.
\<close>

theorem no_usable_data:
  "(DictReader table = [] \<longrightarrow>
      load_csv lib table = ([No_usable_data], Inl (SystemExit 1)) \<and>
      main lib args table = ([Loading (input args), No_usable_data], Inl (SystemExit 1)))
   \<and> (map (parse_row lib) (DictReader table) = map Inr recs \<and> recs \<noteq> [] \<and>
       (\<forall>q. same_label (group_of q recs)) \<longrightarrow>
      load_csv lib table =
        ([Skipped_queries (card (fst ` set recs)), No_usable_data], Inl (SystemExit 1)) \<and>
      main lib args table =
        ([Loading (input args), Skipped_queries (card (fst ` set recs)), No_usable_data],
         Inl (SystemExit 1)))"
proof (intro conjI impI)
  assume e: "DictReader table = []"
  with load_csv_no_usable [of lib table "[]"]
  show l: "load_csv lib table = ([No_usable_data], Inl (SystemExit 1))"
    by (simp add: same_label_def group_of_def)
  from main_load_failure [OF l]
  show "main lib args table = ([Loading (input args), No_usable_data], Inl (SystemExit 1))" .
next
  assume a: "map (parse_row lib) (DictReader table) = map Inr recs \<and> recs \<noteq> [] \<and>
       (\<forall>q. same_label (group_of q recs))"
  then have "load_csv lib table =
    ((if recs = [] then [] else [Skipped_queries (card (fst ` set recs))]) @ [No_usable_data],
     Inl (SystemExit 1))"
    by (intro load_csv_no_usable) simp_all
  with a show l: "load_csv lib table =
        ([Skipped_queries (card (fst ` set recs)), No_usable_data], Inl (SystemExit 1))"
    by simp
  from main_load_failure [OF l]
  show "main lib args table =
        ([Loading (input args), Skipped_queries (card (fst ` set recs)), No_usable_data],
         Inl (SystemExit 1))" by simp
qed

theorem no_usable_data_witness:
  "DictReader [header] = [] \<and>
   load_csv sample [header] = ([No_usable_data], Inl (SystemExit 1)) \<and>
   main sample sample_args [header] =
     ([Loading ''training.csv'', No_usable_data], Inl (SystemExit 1)) \<and>
   map (parse_row sample) (DictReader uniform_only) = map Inr uniform_only_records \<and>
   load_csv sample uniform_only = ([Skipped_queries 2, No_usable_data], Inl (SystemExit 1)) \<and>
   main sample sample_args uniform_only =
     ([Loading ''training.csv'', Skipped_queries 2, No_usable_data], Inl (SystemExit 1))"
proof -
  have e: "DictReader [header] = []" by (simp add: DictReader_def)
  have n: "uniform_only_records \<noteq> []" by (simp add: uniform_only_records_def)
  have s: "\<forall>q. same_label (group_of q uniform_only_records)"
    by (simp add: same_label_def group_of_def uniform_only_records_def)
  have c: "card (fst ` set uniform_only_records) = 2"
    by (simp add: uniform_only_records_def card_insert_if)
  have i: "input sample_args = ''training.csv''" by (simp add: sample_args_def)
  from no_usable_data [of "[header]" sample sample_args uniform_only_records] e
  have 1: "load_csv sample [header] = ([No_usable_data], Inl (SystemExit 1)) \<and>
     main sample sample_args [header] =
       ([Loading ''training.csv'', No_usable_data], Inl (SystemExit 1))"
    by (simp add: i)
  from no_usable_data [of uniform_only sample sample_args uniform_only_records]
    uniform_only_parses n s
  have 2: "load_csv sample uniform_only =
        ([Skipped_queries 2, No_usable_data], Inl (SystemExit 1)) \<and>
      main sample sample_args uniform_only =
        ([Loading ''training.csv'', Skipped_queries 2, No_usable_data], Inl (SystemExit 1))"
    by (simp add: c i)
  from e 1 2 uniform_only_parses show ?thesis by simp
qed

text \<open>
  C4. Whenever \<^verbatim>\<open>load_csv\<close> returns, every entry of the group sizes it returns is at
  least 2: a query is kept only with two different labels, so with two items.
\<close>

theorem group_sizes_at_least_two:
  assumes "load_csv lib table = (err, Inr (X, y, gs))"
  shows "list_all (\<lambda>g. 2 \<le> g) gs"
proof -
  from load_csv_Inr [OF assms] obtain st where st: "group_and_filter lib table = Inr st"
    and gs: "gs = groups st" by blast
  from group_and_filter_Inr [OF st] obtain by_query where
    "st = filter_groups by_query \<lparr>X_rows = [], y_rows = [], groups = [], skipped = 0\<rparr>"
    by blast
  with gs show ?thesis by (simp add: filter_groups_sizes)
qed

theorem group_sizes_at_least_two_witness:
  "load_csv sample interleaved =
     ([Skipped_queries 1],
      Inr ([[''0.1'', ''1'', ''1'', ''1'', ''1'', ''1'', ''1''],
            [''0.3'', ''1'', ''1'', ''1'', ''1'', ''1'', ''1''],
            [''0.2'', ''1'', ''1'', ''1'', ''1'', ''1'', ''1''],
            [''0.5'', ''1'', ''1'', ''1'', ''1'', ''1'', ''1'']],
           [1, 0, 0, 2], [2, 2])) \<and>
   list_all (\<lambda>g. 2 \<le> g) [2, 2 :: nat]"
  using group_sizes_at_least_two [OF load_csv_interleaved] load_csv_interleaved by blast

text \<open>
  C5 (as amended). When a row of the input has a label or a feature whose text the
  conversion rejects, \<^verbatim>\<open>load_csv\<close> returns nothing and prints nothing: the run ends, in
  \<^verbatim>\<open>main\<close> too, with the exception of the first row that does not parse, every row
  before it having parsed. That exception is the one raised by the first field of that row,
  in the order \<open>qid\<close>, \<open>label\<close>, the seven features, whose reading fails: a \<^verbatim>\<open>KeyError\<close>
  with the name of the field when the row has no such key, a \<^verbatim>\<open>TypeError\<close> when its cell
  is \<^verbatim>\<open>None\<close>, and otherwise the \<^verbatim>\<open>ValueError\<close> with the message that \<^verbatim>\<open>int\<close> or
  \<^verbatim>\<open>float\<close> gives for the text of the cell.
\<close>

theorem malformed_row_aborts:
  assumes "r \<in> set (DictReader table)" and "malformed_fields lib r \<noteq> []"
  shows "\<exists>pre bad post recs e.
    DictReader table = pre @ bad # post \<and>
    map (parse_row lib) pre = map Inr recs \<and>
    parse_row lib bad = Inl e \<and>
    load_csv lib table = ([], Inl e) \<and>
    main lib args table = ([Loading (input args)], Inl e) \<and>
    (\<exists>before col after.
       required_fields = before @ col # after \<and>
       (\<forall>c\<in>set before. field_error lib bad c = None) \<and>
       field_error lib bad col = Some e)"
proof -
  from parse_row_malformed [OF assms(2)] obtain e0 where "parse_row lib r = Inl e0" ..
  from first_failure [OF assms(1) this] obtain pre bad post recs e where
    split: "DictReader table = pre @ bad # post"
    and pre: "map (parse_row lib) pre = map Inr recs"
    and bad: "parse_row lib bad = Inl e" by blast
  have l: "load_csv lib table = ([], Inl e)"
    by (rule load_csv_read_failure [OF split pre bad])
  have m: "main lib args table = ([Loading (input args)], Inl e)"
    using main_load_failure [OF l] by simp
  from bad have "first_error (field_error lib bad) required_fields = Some e"
    by (simp add: parse_row_Inl_iff)
  from first_error_Some [OF this] split pre bad l m show ?thesis by blast
qed

theorem malformed_row_aborts_witness:
  "make_row header [''q1'', ''1'', ''0.2'', ''1'', ''1'', ''abc'', ''1'', ''1'', ''1'']
     \<in> set (DictReader bad_feature_second) \<and>
   malformed_fields sample
     (make_row header [''q1'', ''1'', ''0.2'', ''1'', ''1'', ''abc'', ''1'', ''1'', ''1''])
     = [''f3_source_boost''] \<and>
   (\<exists>pre bad post recs.
      DictReader bad_feature_second = pre @ bad # post \<and>
      map (parse_row sample) pre = map Inr recs \<and>
      parse_row sample bad = Inl (ValueError (float_message ''abc'')) \<and>
      load_csv sample bad_feature_second = ([], Inl (ValueError (float_message ''abc''))))"
proof -
  let ?r = "make_row header [''q1'', ''1'', ''0.2'', ''1'', ''1'', ''abc'', ''1'', ''1'', ''1'']"
  have 1: "?r \<in> set (DictReader bad_feature_second)"
    by (simp add: bad_feature_second_def DictReader_def)
  have 2: "malformed_fields sample ?r = [''f3_source_boost'']"
    by (simp add: row_defs)
  then have 3: "malformed_fields sample ?r \<noteq> []" by simp
  have 4: "load_csv sample bad_feature_second = ([], Inl (ValueError (float_message ''abc'')))"
    by (simp add: bad_feature_second_def eval_defs)
  from malformed_row_aborts [OF 1 3, of sample_args] 4 1 2 show ?thesis by auto
qed

text \<open>
  C5 as stated fails: the failure is no condition that names the field and the record. A
  bad first feature in the first row and a bad fourth feature in the second row end the
  run with the same exception.
\<close>

theorem malformed_row_not_named:
  "malformed_fields sample
     (make_row header [''q1'', ''0'', ''abc'', ''1'', ''1'', ''1'', ''1'', ''1'', ''1''])
     = [''f0_similarity''] \<and>
   DictReader bad_feature_first =
     [make_row header [''q1'', ''0'', ''abc'', ''1'', ''1'', ''1'', ''1'', ''1'', ''1''],
      make_row header [''q1'', ''1'', ''0.2'', ''1'', ''1'', ''1'', ''1'', ''1'', ''1'']] \<and>
   load_csv sample bad_feature_first = ([], Inl (ValueError (float_message ''abc''))) \<and>
   malformed_fields sample
     (make_row header [''q1'', ''0'', ''0.1'', ''1'', ''1'', ''1'', ''1'', ''1'', ''1''])
     = [] \<and>
   malformed_fields sample
     (make_row header [''q1'', ''1'', ''0.2'', ''1'', ''1'', ''abc'', ''1'', ''1'', ''1''])
     = [''f3_source_boost''] \<and>
   DictReader bad_feature_second =
     [make_row header [''q1'', ''0'', ''0.1'', ''1'', ''1'', ''1'', ''1'', ''1'', ''1''],
      make_row header [''q1'', ''1'', ''0.2'', ''1'', ''1'', ''abc'', ''1'', ''1'', ''1'']] \<and>
   load_csv sample bad_feature_second = ([], Inl (ValueError (float_message ''abc'')))"
proof (intro conjI)
  show "load_csv sample bad_feature_first = ([], Inl (ValueError (float_message ''abc'')))"
    by (simp add: bad_feature_first_def eval_defs)
  show "load_csv sample bad_feature_second = ([], Inl (ValueError (float_message ''abc'')))"
    by (simp add: bad_feature_second_def eval_defs)
qed (simp_all add: bad_feature_first_def bad_feature_second_def DictReader_def row_defs)

text \<open>
  C6 (as amended). When the header lacks a required field and the file has at least one
  row, \<^verbatim>\<open>load_csv\<close> fails on the first row, so before any row is grouped, and prints
  nothing; \<^verbatim>\<open>main\<close> ends with the same exception. With \<open>col\<close> the first required field, in
  the order \<open>qid\<close>, \<open>label\<close>, the seven features, that the header lacks, the exception is
  the \<^verbatim>\<open>KeyError\<close> naming \<open>col\<close>, unless the conversion of a field read before \<open>col\<close> fails
  in that row: then it is the \<^verbatim>\<open>TypeError\<close> or \<^verbatim>\<open>ValueError\<close> of the first such field.
  A header without \<open>qid\<close> gives the \<^verbatim>\<open>KeyError\<close> naming \<open>qid\<close>, no field being read before it.
\<close>

theorem missing_field_fails_on_first_row:
  assumes "c0 \<in> set required_fields" and "c0 \<notin> set fieldnames"
    and "cells \<in> set lines" and "cells \<noteq> []"
  shows "\<exists>first rest e earlier col later.
    DictReader (fieldnames # lines) = first # rest \<and>
    parse_row lib first = Inl e \<and>
    load_csv lib (fieldnames # lines) = ([], Inl e) \<and>
    main lib args (fieldnames # lines) = ([Loading (input args)], Inl e) \<and>
    required_fields = earlier @ col # later \<and>
    set earlier \<subseteq> set fieldnames \<and> col \<notin> set fieldnames \<and>
    ((\<forall>c\<in>set earlier. field_error lib first c = None) \<and> e = KeyError col \<or>
     (\<exists>before c after.
        earlier = before @ c # after \<and>
        (\<forall>c'\<in>set before. field_error lib first c' = None) \<and>
        field_error lib first c = Some e \<and>
        ((\<exists>tg. e = TypeError tg) \<or> (\<exists>message. e = ValueError message)))) \<and>
    (''qid'' \<notin> set fieldnames \<longrightarrow> e = KeyError ''qid'')"
proof -
  from assms(1,2) have "\<exists>c\<in>set required_fields. c \<notin> set fieldnames" by blast
  from split_list_first_prop [OF this] obtain earlier col later where
    req: "required_fields = earlier @ col # later" and col: "col \<notin> set fieldnames"
    and earlier: "set earlier \<subseteq> set fieldnames" by blast
  from assms(3,4) have "filter (\<lambda>cells. cells \<noteq> []) lines \<noteq> []"
    by (auto simp: filter_empty_conv)
  then obtain l ls where ls: "filter (\<lambda>cells. cells \<noteq> []) lines = l # ls"
    by (cases "filter (\<lambda>cells. cells \<noteq> []) lines") auto
  let ?first = "make_row fieldnames l"
  let ?g = "field_error lib ?first"
  have rows: "DictReader (fieldnames # lines) = ?first # map (make_row fieldnames) ls"
    by (simp add: DictReader_def ls)
  have present: "?first c \<noteq> None" if "c \<in> set earlier" for c
    using that earlier by (auto simp: make_row_None)
  have "?first col = None" using col by (simp add: make_row_None)
  then have missing: "?g col = Some (KeyError col)" by (simp add: field_error_def)
  have fe: "first_error ?g required_fields =
      (case first_error ?g earlier of Some e \<Rightarrow> Some e | None \<Rightarrow> Some (KeyError col))"
    by (simp add: req first_error_append missing split: option.splits)
  have fail: "load_csv lib (fieldnames # lines) = ([], Inl e) \<and>
      main lib args (fieldnames # lines) = ([Loading (input args)], Inl e)"
    if e: "parse_row lib ?first = Inl e" for e
  proof -
    have "map (parse_row lib) [] = map Inr []" by simp
    from load_csv_read_failure [of "fieldnames # lines" "[]", OF _ this e] rows
    have l: "load_csv lib (fieldnames # lines) = ([], Inl e)" by simp
    with main_load_failure [OF l] show ?thesis by simp
  qed
  have qid: "earlier = [] \<and> col = ''qid''" if "''qid'' \<notin> set fieldnames"
  proof (cases earlier)
    case Nil
    with req show ?thesis by (simp add: required_fields_def)
  next
    case (Cons c cs)
    with req have "c = ''qid''" by (simp add: required_fields_def)
    with Cons earlier that show ?thesis by simp
  qed
  show ?thesis
  proof (cases "first_error ?g earlier")
    case None
    with fe have e: "parse_row lib ?first = Inl (KeyError col)"
      by (simp add: parse_row_Inl_iff)
    from None have "\<forall>c\<in>set earlier. ?g c = None" by (simp add: first_error_None_iff)
    moreover from qid have "''qid'' \<notin> set fieldnames \<longrightarrow> KeyError col = KeyError ''qid''"
      by simp
    ultimately show ?thesis using rows e fail [OF e] req earlier col by blast
  next
    case (Some e)
    with fe have e: "parse_row lib ?first = Inl e"
      by (simp add: parse_row_Inl_iff)
    from first_error_Some [OF Some] obtain before c after where
      d: "earlier = before @ c # after" "\<forall>c'\<in>set before. ?g c' = None" "?g c = Some e"
      by blast
    from d(1) have "c \<in> set earlier" by simp
    from field_error_present [OF d(3) present [OF this]]
    have "(\<exists>tg. e = TypeError tg) \<or> (\<exists>message. e = ValueError message)" .
    moreover from qid d(1) have "''qid'' \<in> set fieldnames" by auto
    ultimately show ?thesis using rows e fail [OF e] req earlier col d by blast
  qed
qed

theorem missing_field_fails_on_first_row_witness:
  "''qid'' \<in> set required_fields \<and> ''qid'' \<notin> set (''label'' # FEATURE_COLS) \<and>
   load_csv sample no_qid = ([], Inl (KeyError ''qid'')) \<and>
   (\<exists>first rest. DictReader no_qid = first # rest \<and> parse_row sample first = Inl (KeyError ''qid''))"
proof -
  have 1: "''qid'' \<in> set required_fields" by (simp add: required_fields_def)
  have 2: "''qid'' \<notin> set (''label'' # FEATURE_COLS)" by (simp add: FEATURE_COLS_def)
  have 3: "[''0'', ''0.1'', ''1'', ''1'', ''1'', ''1'', ''1'', ''1''] \<in>
      set [[''0'', ''0.1'', ''1'', ''1'', ''1'', ''1'', ''1'', ''1''],
           [''1'', ''0.2'', ''1'', ''1'', ''1'', ''1'', ''1'', ''1'']]" by simp
  have 4: "[''0'', ''0.1'', ''1'', ''1'', ''1'', ''1'', ''1'', ''1''] \<noteq> []" by simp
  have 5: "load_csv sample no_qid = ([], Inl (KeyError ''qid''))"
    by (simp add: no_qid_def eval_defs)
  from missing_field_fails_on_first_row [OF 1 2 3 4, of sample sample_args] 5 1 2
  show ?thesis by (auto simp: no_qid_def)
qed

text \<open>
  C6 as stated fails: a header without \<open>qid\<close> and no row ends in the exit for no usable
  data, and a header without the last feature ends in the \<^verbatim>\<open>ValueError\<close> of the first
  row's label when that is not a number.
\<close>

theorem missing_field_not_always_reported:
  "''qid'' \<notin> set (hd no_qid_no_rows) \<and>
   load_csv sample no_qid_no_rows = ([No_usable_data], Inl (SystemExit 1)) \<and>
   ''f6_chunk_pos'' \<notin> set (hd no_f6_bad_label) \<and>
   load_csv sample no_f6_bad_label = ([], Inl (ValueError (int_message ''abc'')))"
  by (simp add: no_qid_no_rows_def no_f6_bad_label_def eval_defs)

text \<open>
  C7 (as amended). \<^verbatim>\<open>train\<close> makes no check of the training set. For every feature array
  of two or more dimensions, also one of no rows, it prints its message and calls
  \<^verbatim>\<open>lgb.train\<close> with the group sizes it was given, empty or not; for a feature array of
  fewer dimensions, such as \<^verbatim>\<open>np.array([])\<close>, the message cannot be formatted and
  \<^verbatim>\<open>train\<close> ends with \<^verbatim>\<open>IndexError\<close> before the call, whatever the group sizes. The empty
  case is excluded before: when \<^verbatim>\<open>main\<close> reaches the call, the group sizes are not empty,
  each is at least 2, and they add up to the number of labels, which is the number of rows
  of the two-dimensional feature array.
\<close>

theorem train_makes_no_check:
  "(shape X = n # d # rest \<longrightarrow>
      train X y gs = ([Training (length y) (length gs) d 300], Inr (train_call X y gs)) \<and>
      group (train_set (train_call X y gs)) = gs)
   \<and> (length (shape X) < 2 \<longrightarrow> train X y gs = ([], Inl IndexError))
   \<and> (main lib args table = (out, Inr call) \<longrightarrow>
      group (train_set call) \<noteq> [] \<and>
      list_all (\<lambda>g. 2 \<le> g) (group (train_set call)) \<and>
      sum_list (group (train_set call)) = length (label (train_set call)) \<and>
      length (shape (data (train_set call))) = 2 \<and>
      hd (shape (data (train_set call))) = length (label (train_set call)))"
proof (intro conjI impI)
  assume "shape X = n # d # rest"
  then show "train X y gs =
        ([Training (length y) (length gs) d 300], Inr (train_call X y gs))"
    by (simp add: train_def shape1_def train_call_def Let_def)
  show "group (train_set (train_call X y gs)) = gs"
    by (simp add: train_call_def Let_def)
next
  assume "length (shape X) < 2"
  then have "shape1 X = Inl IndexError"
    by (cases "shape X") (auto simp: shape1_def split: list.splits)
  then show "train X y gs = ([], Inl IndexError)"
    by (simp add: train_def)
next
  assume "main lib args table = (out, Inr call)"
  from main_Inr [OF this] obtain err X' y' gs' where
    l: "load_csv lib table = (err, Inr (X', y', gs'))"
    and c: "call = train_call (np_array X') y' gs'"
    by blast
  have t: "group (train_set call) = gs'" "label (train_set call) = y'"
    "data (train_set call) = np_array X'"
    by (simp_all add: c train_call_def Let_def)
  from load_csv_sizes [OF l] have s: "gs' \<noteq> []" "list_all (\<lambda>g. 2 \<le> g) gs'"
    "sum_list gs' = length y'" "length y' = length X'" by simp_all
  from s have "0 < length X'" by (cases gs') auto
  then obtain r rs where "X' = r # rs" by (cases X') auto
  then have "shape (np_array X') = [length X', length r]" by (simp add: np_array_def)
  with s t
  show "group (train_set call) \<noteq> []"
    "list_all (\<lambda>g. 2 \<le> g) (group (train_set call))"
    "sum_list (group (train_set call)) = length (label (train_set call))"
    "length (shape (data (train_set call))) = 2"
    "hd (shape (data (train_set call))) = length (label (train_set call))"
    by simp_all
qed

theorem train_makes_no_check_witness:
  "shape no_rows = [0, 7] \<and>
   train no_rows [] [] = ([Training 0 0 7 300], Inr (train_call no_rows [] [])) \<and>
   length (shape (np_array ([] :: string list list))) < 2 \<and>
   train (np_array ([] :: string list list)) [] [] = ([], Inl IndexError) \<and>
   main sample sample_args scenario =
     ([Loading ''training.csv'', Skipped_queries 1, Loaded 3 1 7, Training 3 1 7 300],
      Inr (train_call
            (np_array
              [[''0.1'', ''1'', ''1'', ''1'', ''1'', ''1'', ''1''],
               [''0.2'', ''1'', ''1'', ''1'', ''1'', ''1'', ''1''],
               [''0.3'', ''1'', ''1'', ''1'', ''1'', ''1'', ''1'']])
            [0, 1, 2] [3])) \<and>
   group (train_set (train_call
            (np_array
              [[''0.1'', ''1'', ''1'', ''1'', ''1'', ''1'', ''1''],
               [''0.2'', ''1'', ''1'', ''1'', ''1'', ''1'', ''1''],
               [''0.3'', ''1'', ''1'', ''1'', ''1'', ''1'', ''1'']])
            [0, 1, 2] [3])) \<noteq> []"
proof -
  have 1: "shape no_rows = [0, 7]" by (simp add: no_rows_def)
  have 2: "length (shape (np_array ([] :: string list list))) < 2" by (simp add: np_array_def)
  from train_makes_no_check [of no_rows 0 7 "[]" "[]" "[]" sample sample_args scenario] 1
  have 3: "train no_rows [] [] = ([Training 0 0 7 300], Inr (train_call no_rows [] []))"
    by simp
  from train_makes_no_check [of "np_array ([] :: string list list)" 0 0 "[]" "[]" "[]"
      sample sample_args scenario] 2
  have 4: "train (np_array ([] :: string list list)) [] [] = ([], Inl IndexError)"
    by simp
  from train_makes_no_check
    [of no_rows 0 7 "[]" "[]" "[]" sample sample_args scenario
      "[Loading ''training.csv'', Skipped_queries 1, Loaded 3 1 7, Training 3 1 7 300]"
      "train_call
            (np_array
              [[''0.1'', ''1'', ''1'', ''1'', ''1'', ''1'', ''1''],
               [''0.2'', ''1'', ''1'', ''1'', ''1'', ''1'', ''1''],
               [''0.3'', ''1'', ''1'', ''1'', ''1'', ''1'', ''1'']])
            [0, 1, 2] [3]"]
    main_scenario
  have 5: "group (train_set (train_call
            (np_array
              [[''0.1'', ''1'', ''1'', ''1'', ''1'', ''1'', ''1''],
               [''0.2'', ''1'', ''1'', ''1'', ''1'', ''1'', ''1''],
               [''0.3'', ''1'', ''1'', ''1'', ''1'', ''1'', ''1'']])
            [0, 1, 2] [3])) \<noteq> []"
    by simp
  from 1 2 3 4 5 main_scenario show ?thesis by simp
qed

text \<open>
  C7 as stated fails: the training set of no rows, no labels and no groups, with a
  feature array of no rows and seven columns, has fewer than one usable group, and
  \<^verbatim>\<open>train\<close> raises nothing: it prints its message and makes the call of
  \<^verbatim>\<open>lgb.train\<close> with the empty group sizes.
\<close>

theorem train_accepts_empty_groups:
  "sum_list ([] :: nat list) = length ([] :: int list) \<and>
   length ([] :: int list) = hd (shape no_rows) \<and>
   train no_rows [] [] = ([Training 0 0 7 300], Inr (train_call no_rows [] [])) \<and>
   group (train_set (train_call no_rows [] [])) = [] \<and>
   label (train_set (train_call no_rows [] [])) = [] \<and>
   data (train_set (train_call no_rows [] [])) = no_rows"
  by (simp add: train_def shape1_def train_call_def Let_def no_rows_def)

text \<open>
  C8. The gain table is the constant list with gain 0 for label 0, gain 1 for label 1 and
  gain 3 for label 2; it is non-decreasing in the label and nowhere negative; and it is
  the \<^verbatim>\<open>label_gain\<close> parameter of the call of \<^verbatim>\<open>lgb.train\<close>, whatever the
  training set.
\<close>

theorem gain_table:
  "LABEL_GAIN ! 0 = 0 \<and> LABEL_GAIN ! 1 = 1 \<and> LABEL_GAIN ! 2 = 3 \<and> length LABEL_GAIN = 3
   \<and> sorted LABEL_GAIN \<and> list_all (\<lambda>g. 0 \<le> g) LABEL_GAIN
   \<and> label_gain (params (train_call X y gs)) = LABEL_GAIN"
  by (simp add: LABEL_GAIN_def train_call_def Let_def)

text \<open>
  C9. The outputs of \<^verbatim>\<open>load_csv\<close> are a function of the sequence of records: the kept
  queries come in the order in which their keys first occur in the input, each with its
  rows in the order of the input, in the features, the labels and the group sizes alike;
  and two inputs with the same records give the same result (a HOL function has one value
  per argument; the point of the model is that the dictionary is iterated in insertion
  order, which is what makes the script's output a function of its input).
\<close>

theorem groups_in_order_of_first_occurrence:
  assumes "map (parse_row lib) (DictReader table) = map Inr recs"
    and "load_csv lib table = (err, Inr (X, y, gs))"
  shows "X = concat (map (\<lambda>q. map (map (np_float32 lib) \<circ> fst) (group_of q recs)) (usable_ids recs))
    \<and> y = concat (map (\<lambda>q. map snd (group_of q recs)) (usable_ids recs))
    \<and> gs = map (\<lambda>q. length (group_of q recs)) (usable_ids recs)
    \<and> usable_ids recs =
        filter (\<lambda>q. 2 \<le> distinct_label_count (group_of q recs)) (first_occurrences (map fst recs))
    \<and> (\<forall>table'. map (parse_row lib) (DictReader table') = map Inr recs \<longrightarrow>
          load_csv lib table' = load_csv lib table)"
proof -
  from load_csv_success [OF assms(2)] obtain recs' where
    recs': "map (parse_row lib) (DictReader table) = map Inr recs'"
    and out: "X = concat (map (\<lambda>q. map (map (np_float32 lib) \<circ> fst) (group_of q recs')) (usable_ids recs'))"
      "y = concat (map (\<lambda>q. map snd (group_of q recs')) (usable_ids recs'))"
      "gs = map (\<lambda>q. length (group_of q recs')) (usable_ids recs')"
    by blast
  from assms(1) recs' have "map Inr recs' = (map Inr recs :: (exn + _) list)" by simp
  then have "recs' = recs" by (simp add: inj_map_eq_map)
  with out show ?thesis
    using load_csv_same_records [OF assms(1)] by (simp add: usable_ids_def query_ids_def)
qed


theorem groups_in_order_of_first_occurrence_witness:
  "map (parse_row sample) (DictReader interleaved) = map Inr interleaved_records \<and>
   load_csv sample interleaved =
     ([Skipped_queries 1],
      Inr ([[''0.1'', ''1'', ''1'', ''1'', ''1'', ''1'', ''1''],
            [''0.3'', ''1'', ''1'', ''1'', ''1'', ''1'', ''1''],
            [''0.2'', ''1'', ''1'', ''1'', ''1'', ''1'', ''1''],
            [''0.5'', ''1'', ''1'', ''1'', ''1'', ''1'', ''1'']],
           [1, 0, 0, 2], [2, 2])) \<and>
   first_occurrences (map fst interleaved_records) = [Some ''q2'', Some ''q1'', Some ''q3''] \<and>
   usable_ids interleaved_records = [Some ''q2'', Some ''q1''] \<and>
   [1, 0, 0, 2] = concat (map (\<lambda>q. map snd (group_of q interleaved_records))
                    [Some ''q2'', Some ''q1'']) \<and>
   [2, 2] = map (\<lambda>q. length (group_of q interleaved_records)) [Some ''q2'', Some ''q1'']"
proof -
  have f: "first_occurrences (map fst interleaved_records) = [Some ''q2'', Some ''q1'', Some ''q3'']"
    by (simp add: interleaved_records_def)
  have g: "group_of (Some ''q2'') interleaved_records =
       [([''0.1'', ''1'', ''1'', ''1'', ''1'', ''1'', ''1''], 1),
        ([''0.3'', ''1'', ''1'', ''1'', ''1'', ''1'', ''1''], 0)]"
    "group_of (Some ''q1'') interleaved_records =
       [([''0.2'', ''1'', ''1'', ''1'', ''1'', ''1'', ''1''], 0),
        ([''0.5'', ''1'', ''1'', ''1'', ''1'', ''1'', ''1''], 2)]"
    "group_of (Some ''q3'') interleaved_records =
       [([''0.4'', ''1'', ''1'', ''1'', ''1'', ''1'', ''1''], 1)]"
    by (simp_all add: group_of_def interleaved_records_def)
  have u: "usable_ids interleaved_records = [Some ''q2'', Some ''q1'']"
    by (simp add: usable_ids_def query_ids_def f g distinct_label_count_def)
  from groups_in_order_of_first_occurrence [OF interleaved_parses load_csv_interleaved]
  have "[1, 0, 0, 2] = concat (map (\<lambda>q. map snd (group_of q interleaved_records))
                    (usable_ids interleaved_records)) \<and>
    [2, 2] = map (\<lambda>q. length (group_of q interleaved_records)) (usable_ids interleaved_records)"
    by blast
  with f u interleaved_parses load_csv_interleaved show ?thesis by simp
qed

text \<open>
  C10 (as amended). \<^verbatim>\<open>load_csv\<close> checks no range of labels, apart from the conversion
  of the label array to 32-bit integers. Take two inputs whose rows agree in \<open>qid\<close> and in
  every feature and whose label texts \<^verbatim>\<open>int\<close> reads as \<open>l\<close> in the first and as \<open>f l\<close> in
  the second, for a function \<open>f\<close> that is one-to-one on the labels of the first, into
  \<open>{0, 1, 2}\<close> or not. Then the loops end alike: with the same exception, or with the same
  rows, group sizes and counter and the labels replaced. When the labels before and after
  are in the range of 32-bit integers, \<^verbatim>\<open>load_csv\<close> returns or fails alike, with the
  same messages.
\<close>

theorem labels_are_not_range_checked:
  assumes "list_all2 (relabelled_row lib f) (DictReader table) (DictReader table')"
    and "inj_on f (set (labels_of lib (DictReader table)))"
  shows "group_and_filter lib table' =
      (case group_and_filter lib table of
         Inl e \<Rightarrow> Inl e
       | Inr st \<Rightarrow> Inr (st\<lparr>y_rows := map f (y_rows st)\<rparr>))
    \<and> ((\<forall>l\<in>set (labels_of lib (DictReader table)). int32 l \<and> int32 (f l)) \<longrightarrow>
         load_csv lib table' =
           (case load_csv lib table of
              (err, Inl e) \<Rightarrow> (err, Inl e)
            | (err, Inr (X, y, gs)) \<Rightarrow> (err, Inr (X, map f y, gs))))"
proof (cases "read_rows lib (DictReader table) []")
  case (Inl e)
  from read_rows_relabel_failure [OF assms(1) Inl]
  have "read_rows lib (DictReader table') [] = Inl e" .
  with Inl show ?thesis
    by (simp add: load_csv_def group_and_filter_def)
next
  case (Inr by_query)
  from read_rows_Inr [OF Inr] obtain recs where
    recs: "map (parse_row lib) (DictReader table) = map Inr recs" ..
  note recs' = records_relabel [OF assms(1) recs]
  note labels = records_labels [OF recs]
  from assms(2) labels have inj: "inj_on f (snd ` snd ` set recs)"
    by (rule inj_on_subset)
  let ?st = "filter_groups (map (\<lambda>q. (q, group_of q recs)) (query_ids recs))
               \<lparr>X_rows = [], y_rows = [], groups = [], skipped = 0\<rparr>"
  have st: "group_and_filter lib table = Inr ?st"
    by (rule group_and_filter_ok [OF recs])
  have st': "group_and_filter lib table' = Inr (?st\<lparr>y_rows := map f (y_rows ?st)\<rparr>)"
    by (simp only: group_and_filter_ok [OF recs'] relabel_final [OF inj])
  have "load_csv lib table' =
           (case load_csv lib table of
              (err, Inl e) \<Rightarrow> (err, Inl e)
            | (err, Inr (X, y, gs)) \<Rightarrow> (err, Inr (X, map f y, gs)))"
    if r: "\<forall>l\<in>set (labels_of lib (DictReader table)). int32 l \<and> int32 (f l)"
  proof -
    from labels final_y_labels [of recs]
    have "set (y_rows ?st) \<subseteq> set (labels_of lib (DictReader table))" by (rule subset_trans [rotated])
    with r have "\<forall>v\<in>set (y_rows ?st). int32 v"
      and "\<forall>v\<in>set (map f (y_rows ?st)). int32 v" by auto
    then have "np_array_int32 (y_rows ?st) = Inr (y_rows ?st)"
      and "np_array_int32 (map f (y_rows ?st)) = Inr (map f (y_rows ?st))"
      by (simp_all only: np_array_int32_ok)
    then show ?thesis
      by (simp add: load_csv_def st st' Let_def)
  qed
  with st st' show ?thesis by simp
qed

theorem labels_are_not_range_checked_witness:
  "list_all2 (relabelled_row sample relabel) (DictReader scenario) (DictReader relabelled) \<and>
   labels_of sample (DictReader scenario) = [0, 1, 2, 1, 1] \<and>
   inj_on relabel (set [0, 1, 2, 1, 1]) \<and>
   map relabel [0, 1, 2] = [0, 5, - 1] \<and>
   load_csv sample relabelled =
     ([Skipped_queries 1],
      Inr ([[''0.1'', ''1'', ''1'', ''1'', ''1'', ''1'', ''1''],
            [''0.2'', ''1'', ''1'', ''1'', ''1'', ''1'', ''1''],
            [''0.3'', ''1'', ''1'', ''1'', ''1'', ''1'', ''1'']],
           map relabel [0, 1, 2], [3]))"
proof -
  have inj: "inj_on relabel (set [0, 1, 2, 1, 1])"
    by (simp add: relabel_def)
  then have inj': "inj_on relabel (set (labels_of sample (DictReader scenario)))"
    by (simp only: scenario_labels)
  have range: "\<forall>l\<in>set (labels_of sample (DictReader scenario)). int32 l \<and> int32 (relabel l)"
    by (simp add: scenario_labels relabel_def int32_def)
  from labels_are_not_range_checked [OF scenario_relabelled inj'] range
  have "load_csv sample relabelled =
           (case load_csv sample scenario of
              (err, Inl e) \<Rightarrow> (err, Inl e)
            | (err, Inr (X, y, gs)) \<Rightarrow> (err, Inr (X, map relabel y, gs)))"
    by blast
  then have "load_csv sample relabelled =
     ([Skipped_queries 1],
      Inr ([[''0.1'', ''1'', ''1'', ''1'', ''1'', ''1'', ''1''],
            [''0.2'', ''1'', ''1'', ''1'', ''1'', ''1'', ''1''],
            [''0.3'', ''1'', ''1'', ''1'', ''1'', ''1'', ''1'']],
           map relabel [0, 1, 2], [3]))"
    by (simp add: load_csv_scenario)
  moreover have "map relabel [0, 1, 2] = [0, 5, - 1]" by (simp add: relabel_def)
  ultimately show ?thesis using scenario_relabelled scenario_labels inj by blast
qed

text \<open>
  C10 as stated fails: a label beyond the range of the label array parses, is grouped and
  kept, and then the conversion of the labels raises \<^verbatim>\<open>OverflowError\<close>; with the label
  1 in its place the same file loads.
\<close>

theorem huge_label_overflows:
  "py_int sample ''9223372036854775808'' = Inr 9223372036854775808 \<and>
   load_csv sample huge_label = ([], Inl OverflowError) \<and>
   load_csv sample two_labels =
     ([], Inr ([[''0.1'', ''1'', ''1'', ''1'', ''1'', ''1'', ''1''],
                [''0.2'', ''1'', ''1'', ''1'', ''1'', ''1'', ''1'']], [0, 1], [2]))"
  by (simp add: huge_label_def two_labels_def eval_defs)

end
